theory Spec2Isabelle
  imports Complex_Main "HOL-Library.Word" "HOL-Library.Multiset"
begin

section \<open>SQL values\<close>

text \<open>
  The repository's logic lives in two PostgreSQL migrations: the schema
  (tables, constraints, seed rows, triggers) and the PL/pgSQL admin functions.
  A table is the list of its rows, a nullable column or argument is an
  \<open>option\<close> (\<open>None\<close> is SQL NULL), a three-valued condition is a
  \<open>bool option\<close>, and every error PostgreSQL raises is a value \<open>Inl e\<close>.
\<close>

type_synonym uuid = "128 word"

text \<open>INTEGER is a signed 32-bit value, read with \<open>sint\<close>.\<close>

type_synonym int4 = "32 word"

text \<open>TIMESTAMPTZ is a count of microseconds from 1970-01-01 00:00:00 UTC.\<close>

type_synonym timestamptz = int

text \<open>
  Where a timestamp is split into calendar fields, the session's time zone enters.
  A time zone is given by two offsets from UTC, in microseconds, positive east of
  Greenwich: the offset in force at an instant, by which PostgreSQL turns the
  instant into a wall-clock time, and the offset it assigns to a wall-clock time
  when it turns one back into an instant (at a change of daylight saving a
  wall-clock time occurs twice or not at all, and the zone's rules pick the
  offset). In a zone without such changes both are one constant; UTC, the server
  default, is the constant 0.
\<close>

record time_zone =
  utc_offset :: "timestamptz \<Rightarrow> int"
  wall_offset :: "int \<Rightarrow> int"

definition fixed_zone :: "int \<Rightarrow> time_zone" where
  "fixed_zone c = \<lparr>utc_offset = (\<lambda>t. c), wall_offset = (\<lambda>l. c)\<rparr>"

definition utc :: time_zone where
  "utc = fixed_zone 0"

datatype sql_error =
    numeric_value_out_of_range
  | datetime_field_overflow
  | string_data_right_truncation
  | not_null_violation
  | check_violation
  | unique_violation
  | foreign_key_violation
  | division_by_zero
  | datatype_mismatch

text \<open>Sequencing of fallible steps: the first error aborts the function.\<close>

definition bind_err :: "sql_error + 'a \<Rightarrow> ('a \<Rightarrow> sql_error + 'b) \<Rightarrow> sql_error + 'b" where
  "bind_err m f = (case m of Inl e \<Rightarrow> Inl e | Inr x \<Rightarrow> f x)"

text \<open>Conversion of a computed value to INTEGER: \<open>integer out of range\<close> outside 32 bits.\<close>

definition to_int4 :: "int \<Rightarrow> sql_error + int4" where
  "to_int4 x =
     (if - 2147483648 \<le> x \<and> x \<le> 2147483647 then Inr (word_of_int x)
      else Inl numeric_value_out_of_range)"

text \<open>\<open>a + b\<close> on INTEGER: NULL if an operand is NULL, an error on overflow.\<close>

definition int4pl :: "int4 option \<Rightarrow> int4 option \<Rightarrow> sql_error + int4 option" where
  "int4pl a b =
     (case (a, b) of
        (Some x, Some y) \<Rightarrow> bind_err (to_int4 (sint x + sint y)) (\<lambda>r. Inr (Some r))
      | _ \<Rightarrow> Inr None)"

text \<open>\<open>a <= b\<close> on INTEGER: NULL if an operand is NULL.\<close>

definition int4le :: "int4 option \<Rightarrow> int4 option \<Rightarrow> bool option" where
  "int4le a b =
     (case (a, b) of (Some x, Some y) \<Rightarrow> Some (sint x \<le> sint y) | _ \<Rightarrow> None)"

text \<open>
  \<open>SUM\<close> over an INTEGER column is a BIGINT and is NULL over no rows. The sum of
  fewer than \<open>2^32\<close> INTEGER values fits 64 bits, so the exact sum is taken.
\<close>

definition sql_sum :: "int list \<Rightarrow> int option" where
  "sql_sum xs = (if xs = [] then None else Some (sum_list xs))"

definition coalesce :: "'a option \<Rightarrow> 'a \<Rightarrow> 'a" where
  "coalesce v d = (case v of None \<Rightarrow> d | Some x \<Rightarrow> x)"

text \<open>
  \<open>SELECT col INTO v\<close> without STRICT: the first row's value, NULL when the
  query has no row.
\<close>

definition select_into :: "'a list \<Rightarrow> 'a option" where
  "select_into rows = (case rows of [] \<Rightarrow> None | x # _ \<Rightarrow> Some x)"

text \<open>
  Storing a string in a \<open>VARCHAR(n)\<close> column: an over-long value is an error,
  unless the excess is all spaces, which are cut off.
\<close>

definition varchar :: "nat \<Rightarrow> string \<Rightarrow> sql_error + string" where
  "varchar n s =
     (if length s \<le> n then Inr s
      else if list_all (\<lambda>c. c = CHR '' '') (drop n s) then Inr (take n s)
      else Inl string_data_right_truncation)"

subsection \<open>Calendar months\<close>

definition usecs_per_day :: int where
  "usecs_per_day = 86400000000"

text \<open>The Gregorian calendar: leap years, and the lengths of years and months.\<close>

definition is_leap_year :: "int \<Rightarrow> bool" where
  "is_leap_year y = (y mod 4 = 0 \<and> (y mod 100 \<noteq> 0 \<or> y mod 400 = 0))"

definition days_in_year :: "int \<Rightarrow> int" where
  "days_in_year y = (if is_leap_year y then 366 else 365)"

definition days_in_month :: "int \<Rightarrow> int \<Rightarrow> int" where
  "days_in_month y m =
     (if m = 2 then (if is_leap_year y then 29 else 28)
      else if m = 4 \<or> m = 6 \<or> m = 9 \<or> m = 11 then 30 else 31)"

text \<open>
  The year of a day: \<open>year_of_day y n\<close> is the year that holds the day \<open>n\<close>
  days after 1 January of the year \<open>y\<close>, and the day's position in that year
  (from 0), found by stepping over whole years in either direction.
\<close>

function year_of_day :: "int \<Rightarrow> int \<Rightarrow> int \<times> int" where
  "year_of_day y n =
     (if n < 0 then year_of_day (y - 1) (n + days_in_year (y - 1))
      else if days_in_year y \<le> n then year_of_day (y + 1) (n - days_in_year y)
      else (y, n))"
  by pat_completeness auto
termination
  by (relation "measure (\<lambda>(y, n). if n < 0 then nat (- n) + 367 else nat n)")
    (auto simp: days_in_year_def split: if_splits)

text \<open>
  The month of a day: \<open>month_of_day y m n\<close> is the month of the year \<open>y\<close>
  that holds the day \<open>n\<close> days after the first of the month \<open>m\<close>, and the
  day's position in that month (from 0), found by stepping over whole months.
\<close>

function month_of_day :: "int \<Rightarrow> int \<Rightarrow> int \<Rightarrow> int \<times> int" where
  "month_of_day y m n =
     (if m < 12 \<and> days_in_month y m \<le> n
      then month_of_day y (m + 1) (n - days_in_month y m)
      else (m, n))"
  by pat_completeness auto
termination
  by (relation "measure (\<lambda>(y, m, n). nat (12 - m))") auto

declare year_of_day.simps [simp del]

declare month_of_day.simps [simp del]

text \<open>
  \<open>DATE_TRUNC('month', t)\<close> in a session with the time zone \<open>tz\<close>: the
  timestamp is turned into a wall-clock time, its day is located in its year and
  month, the day of the month is set to 1 and the time of day to 0:00, and the
  result is turned back into an instant.
\<close>

definition date_trunc_month :: "time_zone \<Rightarrow> timestamptz \<Rightarrow> timestamptz" where
  "date_trunc_month tz t =
     (let z = (t + utc_offset tz t) div usecs_per_day;
          (y, n) = year_of_day 1970 z;
          (m, k) = month_of_day y 1 n;
          l = (z - k) * usecs_per_day
      in l - wall_offset tz l)"

text \<open>
  Following the claim's words, the start of the calendar month \<open>m\<close> of the year
  \<open>y\<close> in the time zone \<open>tz\<close>: the instant of the midnight that begins
  its first day, where that midnight is counted, as a wall-clock time, from
  1 January 1970 by adding up the lengths of the years and of the months that
  lie between. An instant is in the month if the wall clock then shows a time
  from that midnight up to the midnight that begins the next month.
\<close>

definition days_before_year :: "int \<Rightarrow> int" where
  "days_before_year y =
     (if 1970 \<le> y then sum_list (map days_in_year [1970..y - 1])
      else - sum_list (map days_in_year [y..1969]))"

definition days_before_month :: "int \<Rightarrow> int \<Rightarrow> int" where
  "days_before_month y m = sum_list (map (days_in_month y) [1..m - 1])"

definition first_midnight :: "int \<Rightarrow> int \<Rightarrow> int" where
  "first_midnight y m = (days_before_year y + days_before_month y m) * usecs_per_day"

definition start_of_calendar_month :: "time_zone \<Rightarrow> int \<Rightarrow> int \<Rightarrow> timestamptz" where
  "start_of_calendar_month tz y m = first_midnight y m - wall_offset tz (first_midnight y m)"

definition in_calendar_month :: "time_zone \<Rightarrow> int \<Rightarrow> int \<Rightarrow> timestamptz \<Rightarrow> bool" where
  "in_calendar_month tz y m t =
     (1 \<le> m \<and> m \<le> 12 \<and> first_midnight y m \<le> t + utc_offset tz t
      \<and> t + utc_offset tz t < first_midnight y m + days_in_month y m * usecs_per_day)"

section \<open>Schema (migration 001)\<close>

record tenants_row =
  t_id :: uuid
  t_name :: string
  t_slug :: string
  t_stripe_customer_id :: "string option"
  t_stripe_subscription_id :: "string option"
  t_plan_tier :: string
  t_subscription_status :: string
  t_sso_enabled :: "bool option"
  t_sso_provider :: "string option"
  t_sso_domain :: "string option"
  t_created_at :: timestamptz
  t_updated_at :: timestamptz

record users_row =
  u_id :: uuid
  u_tenant_id :: uuid
  u_email :: string
  u_password_hash :: "string option"
  u_auth_provider :: string
  u_workos_user_id :: "string option"
  u_role :: string
  u_status :: string
  u_created_at :: timestamptz
  u_updated_at :: timestamptz

record usage_logs_row =
  ul_id :: uuid
  ul_tenant_id :: uuid
  ul_api_key_id :: "uuid option"
  ul_endpoint :: string
  ul_query_count :: int4
  ul_cache_hit :: bool
  ul_latency_ms :: int4
  ul_status_code :: int4
  ul_created_at :: timestamptz

record billing_events_row =
  be_id :: uuid
  be_event_id :: string
  be_event_type :: string
  be_payload :: string
  be_processed :: bool
  be_created_at :: timestamptz

record api_keys_row =
  ak_id :: uuid
  ak_tenant_id :: uuid
  ak_user_id :: uuid
  ak_name :: string
  ak_key_hash :: string
  ak_key_prefix :: string
  ak_scopes :: "string list"
  ak_rate_limit_override :: "int4 option"
  ak_expires_at :: "timestamptz option"
  ak_last_used_at :: "timestamptz option"
  ak_is_active :: bool
  ak_created_at :: timestamptz

record plan_config_row =
  pc_id :: uuid
  pc_plan_tier :: string
  pc_stripe_price_id :: "string option"
  pc_queries_per_month :: int4
  pc_rate_limit_per_minute :: int4
  pc_features :: "string list"
  pc_price_monthly_cents :: int4
  pc_created_at :: timestamptz
  pc_updated_at :: timestamptz

record db =
  tenants :: "tenants_row list"
  users :: "users_row list"
  api_keys :: "api_keys_row list"
  usage_logs :: "usage_logs_row list"
  billing_events :: "billing_events_row list"
  plan_config :: "plan_config_row list"

definition empty_db :: db where
  "empty_db = \<lparr>tenants = [], users = [], api_keys = [], usage_logs = [],
                billing_events = [], plan_config = []\<rparr>"

subsection \<open>Constraints\<close>

definition valid_plan_tier :: "tenants_row \<Rightarrow> bool" where
  "valid_plan_tier t =
     (t_plan_tier t \<in> set [''free'', ''starter'', ''professional'', ''enterprise''])"

definition valid_subscription_status :: "tenants_row \<Rightarrow> bool" where
  "valid_subscription_status t =
     (t_subscription_status t \<in>
        set [''active'', ''past_due'', ''canceled'', ''trialing'', ''incomplete''])"

definition valid_auth_provider :: "users_row \<Rightarrow> bool" where
  "valid_auth_provider u =
     (u_auth_provider u \<in> set [''email'', ''google'', ''microsoft'', ''github'', ''sso''])"

definition valid_role :: "users_row \<Rightarrow> bool" where
  "valid_role u = (u_role u \<in> set [''owner'', ''admin'', ''member''])"

definition valid_status :: "users_row \<Rightarrow> bool" where
  "valid_status u = (u_status u \<in> set [''active'', ''invited'', ''suspended''])"

subsection \<open>INSERT\<close>

text \<open>
  An INSERT first evaluates the row, cutting each string to its column's
  \<open>VARCHAR(n)\<close>; then the CHECK constraints are tested; then the primary key and
  the UNIQUE indexes; then the foreign keys. An error leaves the table as it was.
\<close>

definition varchar_opt :: "nat \<Rightarrow> string option \<Rightarrow> sql_error + string option" where
  "varchar_opt n v =
     (case v of None \<Rightarrow> Inr None | Some s \<Rightarrow> bind_err (varchar n s) (\<lambda>s'. Inr (Some s')))"

definition tenants_coerce :: "tenants_row \<Rightarrow> sql_error + tenants_row" where
  "tenants_coerce t =
     bind_err (varchar 255 (t_name t)) (\<lambda>name.
     bind_err (varchar 100 (t_slug t)) (\<lambda>slug.
     bind_err (varchar_opt 255 (t_stripe_customer_id t)) (\<lambda>cust.
     bind_err (varchar_opt 255 (t_stripe_subscription_id t)) (\<lambda>sub.
     bind_err (varchar 50 (t_plan_tier t)) (\<lambda>plan.
     bind_err (varchar 50 (t_subscription_status t)) (\<lambda>status.
     bind_err (varchar_opt 50 (t_sso_provider t)) (\<lambda>prov.
     bind_err (varchar_opt 255 (t_sso_domain t)) (\<lambda>dom.
     Inr (t\<lparr>t_name := name, t_slug := slug, t_stripe_customer_id := cust,
             t_stripe_subscription_id := sub, t_plan_tier := plan,
             t_subscription_status := status, t_sso_provider := prov,
             t_sso_domain := dom\<rparr>)))))))))"

definition tenants_constraints :: "db \<Rightarrow> tenants_row \<Rightarrow> sql_error + db" where
  "tenants_constraints d t =
     (if \<not> valid_plan_tier t \<or> \<not> valid_subscription_status t then Inl check_violation
      else if t_id t \<in> set (map t_id (tenants d)) then Inl unique_violation
      else if t_slug t \<in> set (map t_slug (tenants d)) then Inl unique_violation
      else Inr (d\<lparr>tenants := tenants d @ [t]\<rparr>))"

definition insert_tenants :: "db \<Rightarrow> tenants_row \<Rightarrow> sql_error + db" where
  "insert_tenants d t = bind_err (tenants_coerce t) (tenants_constraints d)"

definition users_coerce :: "users_row \<Rightarrow> sql_error + users_row" where
  "users_coerce u =
     bind_err (varchar 255 (u_email u)) (\<lambda>email.
     bind_err (varchar_opt 255 (u_password_hash u)) (\<lambda>hash.
     bind_err (varchar 50 (u_auth_provider u)) (\<lambda>prov.
     bind_err (varchar_opt 255 (u_workos_user_id u)) (\<lambda>workos.
     bind_err (varchar 50 (u_role u)) (\<lambda>role.
     bind_err (varchar 50 (u_status u)) (\<lambda>status.
     Inr (u\<lparr>u_email := email, u_password_hash := hash, u_auth_provider := prov,
             u_workos_user_id := workos, u_role := role, u_status := status\<rparr>)))))))"

definition users_constraints :: "db \<Rightarrow> users_row \<Rightarrow> sql_error + db" where
  "users_constraints d u =
     (if \<not> valid_auth_provider u \<or> \<not> valid_role u \<or> \<not> valid_status u
        then Inl check_violation
      else if u_id u \<in> set (map u_id (users d)) then Inl unique_violation
      else if (u_tenant_id u, u_email u) \<in> set (map (\<lambda>x. (u_tenant_id x, u_email x)) (users d))
        then Inl unique_violation
      else if u_tenant_id u \<notin> set (map t_id (tenants d)) then Inl foreign_key_violation
      else Inr (d\<lparr>users := users d @ [u]\<rparr>))"

definition insert_users :: "db \<Rightarrow> users_row \<Rightarrow> sql_error + db" where
  "insert_users d u = bind_err (users_coerce u) (users_constraints d)"

definition insert_api_keys :: "db \<Rightarrow> api_keys_row \<Rightarrow> sql_error + db" where
  "insert_api_keys d k =
     bind_err (varchar 100 (ak_name k)) (\<lambda>name.
     bind_err (varchar 64 (ak_key_hash k)) (\<lambda>hash.
     bind_err (varchar 12 (ak_key_prefix k)) (\<lambda>prefix.
       if ak_id k \<in> set (map ak_id (api_keys d)) then Inl unique_violation
       else if hash \<in> set (map ak_key_hash (api_keys d)) then Inl unique_violation
       else if ak_tenant_id k \<notin> set (map t_id (tenants d)) then Inl foreign_key_violation
       else if ak_user_id k \<notin> set (map u_id (users d)) then Inl foreign_key_violation
       else Inr (d\<lparr>api_keys := api_keys d @
                   [k\<lparr>ak_name := name, ak_key_hash := hash, ak_key_prefix := prefix\<rparr>]\<rparr>))))"

definition insert_usage_logs :: "db \<Rightarrow> usage_logs_row \<Rightarrow> sql_error + db" where
  "insert_usage_logs d r =
     bind_err (varchar 100 (ul_endpoint r)) (\<lambda>endpoint.
       if ul_id r \<in> set (map ul_id (usage_logs d)) then Inl unique_violation
       else if ul_tenant_id r \<notin> set (map t_id (tenants d)) then Inl foreign_key_violation
       else if (case ul_api_key_id r of None \<Rightarrow> False
                | Some k \<Rightarrow> k \<notin> set (map ak_id (api_keys d)))
         then Inl foreign_key_violation
       else Inr (d\<lparr>usage_logs := usage_logs d @ [r\<lparr>ul_endpoint := endpoint\<rparr>]\<rparr>))"

definition insert_billing_events :: "db \<Rightarrow> billing_events_row \<Rightarrow> sql_error + db" where
  "insert_billing_events d e =
     bind_err (varchar 255 (be_event_id e)) (\<lambda>event_id.
     bind_err (varchar 100 (be_event_type e)) (\<lambda>event_type.
       if be_id e \<in> set (map be_id (billing_events d)) then Inl unique_violation
       else if event_id \<in> set (map be_event_id (billing_events d)) then Inl unique_violation
       else Inr (d\<lparr>billing_events := billing_events d @
                   [e\<lparr>be_event_id := event_id, be_event_type := event_type\<rparr>]\<rparr>)))"

definition insert_plan_config :: "db \<Rightarrow> plan_config_row \<Rightarrow> sql_error + db" where
  "insert_plan_config d p =
     bind_err (varchar 50 (pc_plan_tier p)) (\<lambda>plan.
     bind_err (varchar_opt 255 (pc_stripe_price_id p)) (\<lambda>price.
       if pc_id p \<in> set (map pc_id (plan_config d)) then Inl unique_violation
       else if plan \<in> set (map pc_plan_tier (plan_config d)) then Inl unique_violation
       else Inr (d\<lparr>plan_config := plan_config d @
                   [p\<lparr>pc_plan_tier := plan, pc_stripe_price_id := price\<rparr>]\<rparr>)))"

subsection \<open>Seed rows\<close>

text \<open>
  The four default plans. The row ids are drawn by \<open>uuid_generate_v4()\<close> and the
  timestamps are the time of the migration; both are arguments here.
\<close>

definition default_plan ::
    "uuid \<Rightarrow> timestamptz \<Rightarrow> string \<Rightarrow> int4 \<Rightarrow> int4 \<Rightarrow> string list \<Rightarrow> int4 \<Rightarrow> plan_config_row" where
  "default_plan i now tier quota rate feats price =
     \<lparr>pc_id = i, pc_plan_tier = tier, pc_stripe_price_id = None,
      pc_queries_per_month = quota, pc_rate_limit_per_minute = rate,
      pc_features = feats, pc_price_monthly_cents = price,
      pc_created_at = now, pc_updated_at = now\<rparr>"

definition migration_001 ::
    "uuid \<Rightarrow> uuid \<Rightarrow> uuid \<Rightarrow> uuid \<Rightarrow> timestamptz \<Rightarrow> sql_error + db" where
  "migration_001 i1 i2 i3 i4 now =
     bind_err (insert_plan_config empty_db
       (default_plan i1 now ''free'' 1000 10 [''single_search'', ''basic_support''] 0)) (\<lambda>d1.
     bind_err (insert_plan_config d1
       (default_plan i2 now ''starter'' 10000 60
          [''single_search'', ''batch_search'', ''email_support''] 2900)) (\<lambda>d2.
     bind_err (insert_plan_config d2
       (default_plan i3 now ''professional'' 100000 300
          [''single_search'', ''batch_search'', ''priority_support'', ''analytics''] 9900)) (\<lambda>d3.
     insert_plan_config d3
       (default_plan i4 now ''enterprise'' 1000000 1000
          [''single_search'', ''batch_search'', ''sso'', ''dedicated_support'',
           ''analytics'', ''sla''] 49900))))"

subsection \<open>Trigger\<close>

text \<open>\<open>update_updated_at_column\<close>, run before each UPDATE of a \<open>tenants\<close> row.\<close>

definition update_updated_at_column :: "timestamptz \<Rightarrow> tenants_row \<Rightarrow> tenants_row" where
  "update_updated_at_column now new = new\<lparr>t_updated_at := now\<rparr>"

text \<open>The same trigger function, run before each UPDATE of a \<open>plan_config\<close> row.\<close>

definition update_updated_at_column_plan_config ::
    "timestamptz \<Rightarrow> plan_config_row \<Rightarrow> plan_config_row" where
  "update_updated_at_column_plan_config now new = new\<lparr>pc_updated_at := now\<rparr>"

subsection \<open>UPDATE\<close>

text \<open>An UPDATE rewrites the rows its WHERE selects, in place; the first error aborts it.\<close>

fun update_where :: "('a \<Rightarrow> bool) \<Rightarrow> ('a \<Rightarrow> sql_error + 'a) \<Rightarrow> 'a list \<Rightarrow> sql_error + 'a list" where
  "update_where P f [] = Inr []"
| "update_where P f (x # xs) =
     (if P x
      then bind_err (f x) (\<lambda>x'. bind_err (update_where P f xs) (\<lambda>xs'. Inr (x' # xs')))
      else bind_err (update_where P f xs) (\<lambda>xs'. Inr (x # xs')))"

text \<open>
  \<open>UPDATE tenants SET ... WHERE ...\<close>, for any SET list and any condition: each
  selected row is rewritten and cut to its columns' lengths, the trigger stamps
  it, and the CHECK constraints are tested; then the primary key and the UNIQUE
  index are tested on the table, and the foreign keys that refer to it.
\<close>

definition update_tenants_row ::
    "timestamptz \<Rightarrow> (tenants_row \<Rightarrow> tenants_row) \<Rightarrow> tenants_row \<Rightarrow> sql_error + tenants_row" where
  "update_tenants_row now assign t =
     bind_err (tenants_coerce (assign t)) (\<lambda>t'.
       let new = update_updated_at_column now t'
       in if valid_plan_tier new \<and> valid_subscription_status new then Inr new
          else Inl check_violation)"

definition update_tenants ::
    "db \<Rightarrow> timestamptz \<Rightarrow> (tenants_row \<Rightarrow> bool) \<Rightarrow> (tenants_row \<Rightarrow> tenants_row)
       \<Rightarrow> sql_error + db" where
  "update_tenants d now cond assign =
     bind_err (update_where cond (update_tenants_row now assign) (tenants d)) (\<lambda>ts.
       if \<not> distinct (map t_id ts) \<or> \<not> distinct (map t_slug ts) then Inl unique_violation
       else if \<not> set (map u_tenant_id (users d)) \<subseteq> set (map t_id ts)
               \<or> \<not> set (map ak_tenant_id (api_keys d)) \<subseteq> set (map t_id ts)
               \<or> \<not> set (map ul_tenant_id (usage_logs d)) \<subseteq> set (map t_id ts)
         then Inl foreign_key_violation
       else Inr (d\<lparr>tenants := ts\<rparr>))"

text \<open>
  \<open>UPDATE plan_config SET ... WHERE ...\<close>, for any SET list and any condition:
  each selected row is rewritten and cut to its columns' lengths and the trigger
  stamps it; then the primary key and the UNIQUE index on \<open>plan_tier\<close> are
  tested. No foreign key refers to \<open>plan_config\<close>.
\<close>

definition update_plan_config_row ::
    "timestamptz \<Rightarrow> (plan_config_row \<Rightarrow> plan_config_row) \<Rightarrow> plan_config_row
       \<Rightarrow> sql_error + plan_config_row" where
  "update_plan_config_row now assign p =
     bind_err (varchar 50 (pc_plan_tier (assign p))) (\<lambda>plan.
     bind_err (varchar_opt 255 (pc_stripe_price_id (assign p))) (\<lambda>price.
     Inr (update_updated_at_column_plan_config now
            ((assign p)\<lparr>pc_plan_tier := plan, pc_stripe_price_id := price\<rparr>))))"

definition update_plan_config ::
    "db \<Rightarrow> timestamptz \<Rightarrow> (plan_config_row \<Rightarrow> bool) \<Rightarrow> (plan_config_row \<Rightarrow> plan_config_row)
       \<Rightarrow> sql_error + db" where
  "update_plan_config d now cond assign =
     bind_err (update_where cond (update_plan_config_row now assign) (plan_config d)) (\<lambda>ps.
       if \<not> distinct (map pc_id ps) \<or> \<not> distinct (map pc_plan_tier ps)
         then Inl unique_violation
       else Inr (d\<lparr>plan_config := ps\<rparr>))"

subsection \<open>DELETE\<close>

text \<open>
  \<open>DELETE FROM plan_config WHERE ...\<close>: no foreign key refers to the table (a
  tenant's \<open>plan_tier\<close> is a plain string), so any row can be deleted.
\<close>

definition delete_plan_config :: "db \<Rightarrow> (plan_config_row \<Rightarrow> bool) \<Rightarrow> db" where
  "delete_plan_config d cond = d\<lparr>plan_config := filter (\<lambda>p. \<not> cond p) (plan_config d)\<rparr>"

text \<open>
  \<open>usage_logs.api_key_id ... ON DELETE SET NULL\<close>: a log row that refers to one
  of the deleted keys loses the reference.
\<close>

definition set_null_api_key :: "uuid list \<Rightarrow> usage_logs_row \<Rightarrow> usage_logs_row" where
  "set_null_api_key gone r =
     (case ul_api_key_id r of
        None \<Rightarrow> r
      | Some k \<Rightarrow> if k \<in> set gone then r\<lparr>ul_api_key_id := None\<rparr> else r)"

text \<open>\<open>DELETE FROM api_keys WHERE ...\<close>, with the action on \<open>usage_logs\<close>.\<close>

definition delete_api_keys :: "db \<Rightarrow> (api_keys_row \<Rightarrow> bool) \<Rightarrow> db" where
  "delete_api_keys d cond =
     (let gone = map ak_id (filter cond (api_keys d))
      in d\<lparr>api_keys := filter (\<lambda>k. \<not> cond k) (api_keys d),
           usage_logs := map (set_null_api_key gone) (usage_logs d)\<rparr>)"

text \<open>
  \<open>DELETE FROM users WHERE ...\<close>: \<open>api_keys.user_id ... ON DELETE CASCADE\<close>
  deletes the keys of the deleted users.
\<close>

definition delete_users :: "db \<Rightarrow> (users_row \<Rightarrow> bool) \<Rightarrow> db" where
  "delete_users d cond =
     (let gone = map u_id (filter cond (users d))
      in delete_api_keys (d\<lparr>users := filter (\<lambda>u. \<not> cond u) (users d)\<rparr>)
           (\<lambda>k. ak_user_id k \<in> set gone))"

text \<open>
  \<open>DELETE FROM tenants WHERE ...\<close>: \<open>ON DELETE CASCADE\<close> on
  \<open>users.tenant_id\<close>, \<open>api_keys.tenant_id\<close> and \<open>usage_logs.tenant_id\<close>
  deletes the users, keys and log rows of the deleted tenants.
\<close>

definition delete_tenants :: "db \<Rightarrow> (tenants_row \<Rightarrow> bool) \<Rightarrow> db" where
  "delete_tenants d cond =
     (let gone = map t_id (filter cond (tenants d));
          d1 = delete_users (d\<lparr>tenants := filter (\<lambda>t. \<not> cond t) (tenants d)\<rparr>)
                 (\<lambda>u. u_tenant_id u \<in> set gone);
          d2 = delete_api_keys d1 (\<lambda>k. ak_tenant_id k \<in> set gone)
      in d2\<lparr>usage_logs := filter (\<lambda>r. ul_tenant_id r \<notin> set gone) (usage_logs d2)\<rparr>)"

section \<open>Admin functions (migration 002)\<close>

subsection \<open>get_monthly_query_count\<close>

text \<open>
  The rows the query reads, in a session with the time zone \<open>tz\<close> at the time
  \<open>now\<close>: \<open>tenant_id = p_tenant_id\<close> is not true for a NULL argument, so no
  row is selected then.
\<close>

definition monthly_rows ::
    "db \<Rightarrow> time_zone \<Rightarrow> timestamptz \<Rightarrow> uuid option \<Rightarrow> usage_logs_row list" where
  "monthly_rows d tz now p_tenant_id =
     filter (\<lambda>r. Some (ul_tenant_id r) = p_tenant_id
                \<and> date_trunc_month tz now \<le> ul_created_at r)
       (usage_logs d)"

text \<open>
  \<open>SELECT COALESCE(SUM(query_count), 0) INTO v_count\<close>: the BIGINT sum is
  assigned to an INTEGER variable, which raises when it does not fit.
\<close>

definition get_monthly_query_count ::
    "db \<Rightarrow> time_zone \<Rightarrow> timestamptz \<Rightarrow> uuid option \<Rightarrow> sql_error + int4" where
  "get_monthly_query_count d tz now p_tenant_id =
     to_int4 (coalesce (sql_sum (map (\<lambda>r. sint (ul_query_count r))
                (monthly_rows d tz now p_tenant_id))) 0)"

subsection \<open>check_tenant_quota\<close>

text \<open>\<open>SELECT plan_tier INTO v_plan_tier FROM tenants WHERE id = p_tenant_id\<close>\<close>

definition select_plan_tier :: "db \<Rightarrow> uuid option \<Rightarrow> string option" where
  "select_plan_tier d p_tenant_id =
     select_into (map t_plan_tier (filter (\<lambda>t. Some (t_id t) = p_tenant_id) (tenants d)))"

text \<open>\<open>SELECT queries_per_month INTO v_quota FROM plan_config WHERE plan_tier = v_plan_tier\<close>\<close>

definition select_queries_per_month :: "db \<Rightarrow> string \<Rightarrow> int4 option" where
  "select_queries_per_month d v_plan_tier =
     select_into (map pc_queries_per_month
       (filter (\<lambda>p. pc_plan_tier p = v_plan_tier) (plan_config d)))"

definition check_tenant_quota ::
    "db \<Rightarrow> time_zone \<Rightarrow> timestamptz \<Rightarrow> uuid option \<Rightarrow> int4 option
       \<Rightarrow> sql_error + bool option" where
  "check_tenant_quota d tz now p_tenant_id p_query_count =
     (case select_plan_tier d p_tenant_id of
        None \<Rightarrow> Inr (Some False)
      | Some v_plan_tier \<Rightarrow>
          (let v_quota = select_queries_per_month d v_plan_tier
           in bind_err (get_monthly_query_count d tz now p_tenant_id) (\<lambda>v_used.
              bind_err (int4pl (Some v_used) p_query_count) (\<lambda>total.
              Inr (int4le total v_quota)))))"

subsection \<open>create_tenant_with_owner\<close>

text \<open>\<open>LOWER\<close> on the ASCII letters.\<close>

definition lower :: "string \<Rightarrow> string" where
  "lower s = map (\<lambda>c. let n = (of_char c :: nat)
                       in if 65 \<le> n \<and> n \<le> 90 then char_of (n + 32) else c) s"

text \<open>
  The two ids are the values \<open>uuid_generate_v4()\<close> draws for the new rows. The
  columns the INSERTs do not list take their defaults. A failure of the second
  INSERT aborts the function, and with it the first.
\<close>

definition create_tenant_with_owner ::
    "db \<Rightarrow> timestamptz \<Rightarrow> uuid \<Rightarrow> uuid \<Rightarrow> string option \<Rightarrow> string option \<Rightarrow> string option
       \<Rightarrow> string option \<Rightarrow> sql_error + ((uuid \<times> uuid) \<times> db)" where
  "create_tenant_with_owner d now v_tenant_id v_user_id p_tenant_name p_tenant_slug
       p_owner_email p_owner_password_hash =
     bind_err (varchar_opt 255 p_tenant_name) (\<lambda>name.
     bind_err (varchar_opt 100 p_tenant_slug) (\<lambda>slug.
       case (name, slug) of
         (Some n, Some s) \<Rightarrow>
           bind_err (tenants_constraints d
             \<lparr>t_id = v_tenant_id, t_name = n, t_slug = s,
              t_stripe_customer_id = None, t_stripe_subscription_id = None,
              t_plan_tier = ''free'', t_subscription_status = ''active'',
              t_sso_enabled = Some False, t_sso_provider = None, t_sso_domain = None,
              t_created_at = now, t_updated_at = now\<rparr>) (\<lambda>d1.
           bind_err (varchar_opt 255 (map_option lower p_owner_email)) (\<lambda>email.
           bind_err (varchar_opt 255 p_owner_password_hash) (\<lambda>hash.
             case email of
               None \<Rightarrow> Inl not_null_violation
             | Some e \<Rightarrow>
                 bind_err (users_constraints d1
                   \<lparr>u_id = v_user_id, u_tenant_id = v_tenant_id, u_email = e,
                    u_password_hash = hash, u_auth_provider = ''email'',
                    u_workos_user_id = None, u_role = ''owner'', u_status = ''active'',
                    u_created_at = now, u_updated_at = now\<rparr>) (\<lambda>d2.
                 Inr ((v_tenant_id, v_user_id), d2)))))
       | _ \<Rightarrow> Inl not_null_violation))"

subsection \<open>get_tenant_usage_stats\<close>

text \<open>
  The row of the function's query. FLOAT and NUMERIC values are given by the
  rational number they approximate. \<open>by_endpoint\<close> is a JSON object with one
  value for each key.
\<close>

record usage_stats =
  total_requests :: int
  total_queries :: int
  cache_hit_rate :: "rat option"
  avg_latency_ms :: rat
  by_endpoint :: "string \<rightharpoonup> int4"

definition between :: "timestamptz \<Rightarrow> timestamptz option \<Rightarrow> timestamptz option \<Rightarrow> bool option" where
  "between x lo hi =
     (case (lo, hi) of
        (Some a, Some b) \<Rightarrow> Some (a \<le> x \<and> x \<le> b)
      | (Some a, None) \<Rightarrow> (if a \<le> x then None else Some False)
      | (None, Some b) \<Rightarrow> (if x \<le> b then None else Some False)
      | (None, None) \<Rightarrow> None)"

definition float8div :: "rat option \<Rightarrow> rat option \<Rightarrow> sql_error + rat option" where
  "float8div a b =
     (case (a, b) of
        (Some x, Some y) \<Rightarrow> (if y = 0 then Inl division_by_zero else Inr (Some (x / y)))
      | _ \<Rightarrow> Inr None)"

definition sql_avg :: "int list \<Rightarrow> rat option" where
  "sql_avg xs = (if xs = [] then None else Some (of_int (sum_list xs) / of_nat (length xs)))"

text \<open>
  \<open>jsonb_object_agg\<close> reads the pairs in the order the plan delivers them; of
  several pairs with one key the last one read gives the value.
\<close>

definition jsonb_object_agg :: "(string \<times> int4) list \<Rightarrow> (string \<rightharpoonup> int4) option" where
  "jsonb_object_agg kvs =
     (if kvs = [] then None else Some (fold (\<lambda>(k, v) m. m(k \<mapsto> v)) kvs Map.empty))"

definition usage_stats_rows ::
    "db \<Rightarrow> uuid option \<Rightarrow> timestamptz option \<Rightarrow> timestamptz option \<Rightarrow> usage_logs_row list" where
  "usage_stats_rows d p_tenant_id p_start_date p_end_date =
     filter (\<lambda>ul. Some (ul_tenant_id ul) = p_tenant_id
                \<and> between (ul_created_at ul) p_start_date p_end_date = Some True)
       (usage_logs d)"

text \<open>
  The aggregates over the selected rows, given in the order in which the plan
  delivers them. Only \<open>by_endpoint\<close> depends on that order.
\<close>

definition usage_stats_select :: "usage_logs_row list \<Rightarrow> sql_error + usage_stats" where
  "usage_stats_select rows =
     bind_err
       (if length rows > 0
        then float8div
               (map_option of_int (sql_sum (map (\<lambda>ul. if ul_cache_hit ul then 1 else 0) rows)))
               (Some (of_nat (length rows)))
        else Inr (Some 0)) (\<lambda>rate.
     Inr \<lparr>total_requests = int (length rows),
          total_queries = coalesce (sql_sum (map (\<lambda>ul. sint (ul_query_count ul)) rows)) 0,
          cache_hit_rate = rate,
          avg_latency_ms = coalesce (sql_avg (map (\<lambda>ul. sint (ul_latency_ms ul)) rows)) 0,
          by_endpoint = coalesce (jsonb_object_agg
                          (map (\<lambda>ul. (ul_endpoint ul, ul_query_count ul)) rows)) Map.empty\<rparr>)"

text \<open>
  \<open>RETURN QUERY\<close> requires each column of the query to have exactly the type the
  function declares in \<open>RETURNS TABLE\<close>; otherwise it raises \<open>structure of query
  does not match function result type\<close> before any row is produced. The query's
  columns are, in order:
  \<open>COUNT(*)::BIGINT\<close>; \<open>COALESCE(SUM(..), 0)::BIGINT\<close>; a CASE over a FLOAT
  quotient and the literal 0, which is a FLOAT; \<open>COALESCE(AVG(ul.latency_ms), 0)\<close>,
  where the average of an INTEGER column is a NUMERIC; and a JSONB.
\<close>

datatype sql_type = T_bigint | T_double_precision | T_numeric | T_jsonb

definition usage_stats_declared :: "sql_type list" where
  "usage_stats_declared = [T_bigint, T_bigint, T_double_precision, T_double_precision, T_jsonb]"

definition usage_stats_query_types :: "sql_type list" where
  "usage_stats_query_types = [T_bigint, T_bigint, T_double_precision, T_numeric, T_jsonb]"

definition return_query ::
    "sql_type list \<Rightarrow> sql_type list \<Rightarrow> sql_error + 'a list \<Rightarrow> sql_error + 'a list" where
  "return_query declared returned query =
     (if returned = declared then query else Inl datatype_mismatch)"

text \<open>
  SQL leaves open the order in which the selected rows reach the aggregates: it
  is the planner's choice (the table's own order under a sequential scan,
  \<open>created_at\<close> descending under the index \<open>idx_usage_logs_tenant_time\<close>).
  That order is the argument \<open>scan\<close>, which rearranges the selected rows.
\<close>

definition get_tenant_usage_stats ::
    "db \<Rightarrow> (usage_logs_row list \<Rightarrow> usage_logs_row list) \<Rightarrow> uuid option
       \<Rightarrow> timestamptz option \<Rightarrow> timestamptz option \<Rightarrow> sql_error + usage_stats list" where
  "get_tenant_usage_stats d scan p_tenant_id p_start_date p_end_date =
     return_query usage_stats_declared usage_stats_query_types
       (bind_err (usage_stats_select
                    (scan (usage_stats_rows d p_tenant_id p_start_date p_end_date)))
          (\<lambda>row. Inr [row]))"

subsection \<open>change_tenant_plan\<close>

text \<open>
  The new version of one selected row: the SET list is evaluated on the old row
  (the two arguments are cut to their columns' lengths; a value read from the row
  already fits), the trigger stamps it, then NOT NULL and the CHECK constraints
  are tested.
\<close>

definition change_tenant_plan_row ::
    "timestamptz \<Rightarrow> string option \<Rightarrow> string option \<Rightarrow> tenants_row \<Rightarrow> sql_error + tenants_row" where
  "change_tenant_plan_row now p_new_plan p_stripe_subscription_id t =
     bind_err (varchar_opt 50 p_new_plan) (\<lambda>plan.
     bind_err (varchar_opt 255 p_stripe_subscription_id) (\<lambda>sub.
       case plan of
         None \<Rightarrow> Inl not_null_violation
       | Some pl \<Rightarrow>
           (let new = update_updated_at_column now
                        (t\<lparr>t_plan_tier := pl,
                           t_stripe_subscription_id :=
                             (case sub of None \<Rightarrow> t_stripe_subscription_id t | Some s \<Rightarrow> Some s),
                           t_subscription_status :=
                             (if p_new_plan = Some ''free'' then ''active''
                              else t_subscription_status t),
                           t_updated_at := now\<rparr>)
            in if valid_plan_tier new \<and> valid_subscription_status new then Inr new
               else Inl check_violation)))"

definition change_tenant_plan ::
    "db \<Rightarrow> timestamptz \<Rightarrow> uuid option \<Rightarrow> string option \<Rightarrow> string option
       \<Rightarrow> sql_error + (bool \<times> db)" where
  "change_tenant_plan d now p_tenant_id p_new_plan p_stripe_subscription_id =
     bind_err (update_where (\<lambda>t. Some (t_id t) = p_tenant_id)
                 (change_tenant_plan_row now p_new_plan p_stripe_subscription_id)
                 (tenants d)) (\<lambda>ts.
     Inr (filter (\<lambda>t. Some (t_id t) = p_tenant_id) (tenants d) \<noteq> [],
          d\<lparr>tenants := ts\<rparr>))"

subsection \<open>cleanup_old_usage_logs\<close>

text \<open>
  \<open>CURRENT_TIMESTAMP - (n || ' days')::INTERVAL\<close>: \<open>n\<close> days earlier. Days
  are subtracted on the calendar of the session's time zone: the timestamp is
  turned into a wall-clock time, the date is moved, and the result is turned
  back into an instant. An interval of no days leaves the timestamp as it is.
\<close>

definition days_earlier :: "time_zone \<Rightarrow> timestamptz \<Rightarrow> int \<Rightarrow> timestamptz" where
  "days_earlier tz t n =
     (if n = 0 then t
      else let l = t + utc_offset tz t - n * usecs_per_day in l - wall_offset tz l)"

text \<open>The result must lie between 4714-11-24 BC and the end of the year 294276.\<close>

definition timestamptz_mi_days ::
    "time_zone \<Rightarrow> timestamptz \<Rightarrow> int \<Rightarrow> sql_error + timestamptz" where
  "timestamptz_mi_days tz t n =
     (let r = days_earlier tz t n
      in if - 210866803200000000 \<le> r \<and> r < 9224318016000000000 then Inr r
         else Inl datetime_field_overflow)"

text \<open>
  The cutoff does not depend on the row, so it is evaluated once, whether or not
  the table has rows, and an overflow in it aborts the function. With a NULL
  argument the cutoff is NULL, the condition is NULL on every row, and nothing is
  deleted. The function returns the number of rows deleted.
\<close>

definition cleanup_old_usage_logs ::
    "db \<Rightarrow> time_zone \<Rightarrow> timestamptz \<Rightarrow> int4 option \<Rightarrow> sql_error + (int4 \<times> db)" where
  "cleanup_old_usage_logs d tz now p_days_to_keep =
     (case p_days_to_keep of
        None \<Rightarrow> Inr (0, d)
      | Some n \<Rightarrow>
          bind_err (timestamptz_mi_days tz now (sint n)) (\<lambda>cutoff.
            let kept = filter (\<lambda>r. \<not> ul_created_at r < cutoff) (usage_logs d)
            in bind_err (to_int4 (int (length (usage_logs d)) - int (length kept))) (\<lambda>v_deleted.
               Inr (v_deleted, d\<lparr>usage_logs := kept\<rparr>))))"

section \<open>Operations on the database\<close>

text \<open>
  What can be run against the database: the admin functions; an INSERT into each
  table; an UPDATE of \<open>tenants\<close> and of \<open>plan_config\<close>; and a DELETE from
  \<open>tenants\<close>, \<open>users\<close>, \<open>api_keys\<close> and \<open>plan_config\<close>, each subject to
  the schema's constraints and followed by the schema's referential actions. The
  repository has no UPDATE of \<open>usage_logs\<close> and, apart from
  \<open>cleanup_old_usage_logs\<close>, no DELETE from it. The reset script, which drops
  every table and function, is not an operation on the database it removes. A
  call of \<open>get_tenant_usage_stats\<close> comes with the order its plan delivers
  rows in.
\<close>

datatype call =
    Get_monthly_query_count "uuid option"
  | Check_tenant_quota "uuid option" "int4 option"
  | Create_tenant_with_owner uuid uuid "string option" "string option" "string option"
      "string option"
  | Get_tenant_usage_stats "usage_logs_row list \<Rightarrow> usage_logs_row list" "uuid option"
      "timestamptz option" "timestamptz option"
  | Change_tenant_plan "uuid option" "string option" "string option"
  | Cleanup_old_usage_logs "int4 option"
  | Insert_tenants tenants_row
  | Update_tenants "tenants_row \<Rightarrow> bool" "tenants_row \<Rightarrow> tenants_row"
  | Delete_tenants "tenants_row \<Rightarrow> bool"
  | Insert_users users_row
  | Delete_users "users_row \<Rightarrow> bool"
  | Insert_api_keys api_keys_row
  | Delete_api_keys "api_keys_row \<Rightarrow> bool"
  | Insert_usage_logs usage_logs_row
  | Insert_billing_events billing_events_row
  | Insert_plan_config plan_config_row
  | Update_plan_config "plan_config_row \<Rightarrow> bool" "plan_config_row \<Rightarrow> plan_config_row"
  | Delete_plan_config "plan_config_row \<Rightarrow> bool"

datatype result =
    R_integer int4
  | R_boolean "bool option"
  | R_tenant_user uuid uuid
  | R_usage_stats "usage_stats list"
  | R_void

text \<open>A call in a session with the time zone \<open>tz\<close>, at the time \<open>now\<close>.\<close>

fun exec :: "db \<Rightarrow> time_zone \<Rightarrow> timestamptz \<Rightarrow> call \<Rightarrow> sql_error + (result \<times> db)" where
  "exec d tz now (Get_monthly_query_count t) =
     bind_err (get_monthly_query_count d tz now t) (\<lambda>v. Inr (R_integer v, d))"
| "exec d tz now (Check_tenant_quota t n) =
     bind_err (check_tenant_quota d tz now t n) (\<lambda>b. Inr (R_boolean b, d))"
| "exec d tz now (Create_tenant_with_owner i j name slug email hash) =
     bind_err (create_tenant_with_owner d now i j name slug email hash)
       (\<lambda>((tid, uid), d'). Inr (R_tenant_user tid uid, d'))"
| "exec d tz now (Get_tenant_usage_stats scan t lo hi) =
     bind_err (get_tenant_usage_stats d scan t lo hi) (\<lambda>rows. Inr (R_usage_stats rows, d))"
| "exec d tz now (Change_tenant_plan t plan sub) =
     bind_err (change_tenant_plan d now t plan sub) (\<lambda>(found, d'). Inr (R_boolean (Some found), d'))"
| "exec d tz now (Cleanup_old_usage_logs n) =
     bind_err (cleanup_old_usage_logs d tz now n) (\<lambda>(v, d'). Inr (R_integer v, d'))"
| "exec d tz now (Insert_tenants t) = bind_err (insert_tenants d t) (\<lambda>d'. Inr (R_void, d'))"
| "exec d tz now (Update_tenants cond assign) =
     bind_err (update_tenants d now cond assign) (\<lambda>d'. Inr (R_void, d'))"
| "exec d tz now (Delete_tenants cond) = Inr (R_void, delete_tenants d cond)"
| "exec d tz now (Insert_users u) = bind_err (insert_users d u) (\<lambda>d'. Inr (R_void, d'))"
| "exec d tz now (Delete_users cond) = Inr (R_void, delete_users d cond)"
| "exec d tz now (Insert_api_keys k) = bind_err (insert_api_keys d k) (\<lambda>d'. Inr (R_void, d'))"
| "exec d tz now (Delete_api_keys cond) = Inr (R_void, delete_api_keys d cond)"
| "exec d tz now (Insert_usage_logs r) =
     bind_err (insert_usage_logs d r) (\<lambda>d'. Inr (R_void, d'))"
| "exec d tz now (Insert_billing_events e) =
     bind_err (insert_billing_events d e) (\<lambda>d'. Inr (R_void, d'))"
| "exec d tz now (Insert_plan_config p) =
     bind_err (insert_plan_config d p) (\<lambda>d'. Inr (R_void, d'))"
| "exec d tz now (Update_plan_config cond assign) =
     bind_err (update_plan_config d now cond assign) (\<lambda>d'. Inr (R_void, d'))"
| "exec d tz now (Delete_plan_config cond) = Inr (R_void, delete_plan_config d cond)"

text \<open>
  A sequence of calls, each with its session's time zone and its time; a call that
  raises is rolled back and changes nothing.
\<close>

fun run :: "db \<Rightarrow> (time_zone \<times> timestamptz \<times> call) list \<Rightarrow> db" where
  "run d [] = d"
| "run d ((tz, now, c) # cs) =
     (case exec d tz now c of Inl e \<Rightarrow> run d cs | Inr (r, d') \<Rightarrow> run d' cs)"

text \<open>The call that deletes usage-log rows by itself.\<close>

fun is_cleanup :: "call \<Rightarrow> bool" where
  "is_cleanup (Cleanup_old_usage_logs n) = True"
| "is_cleanup c = False"

text \<open>The calls whose referential actions reach \<open>usage_logs\<close>.\<close>

fun cascades_to_usage_logs :: "call \<Rightarrow> bool" where
  "cascades_to_usage_logs (Delete_tenants cond) = True"
| "cascades_to_usage_logs (Delete_users cond) = True"
| "cascades_to_usage_logs (Delete_api_keys cond) = True"
| "cascades_to_usage_logs c = False"

text \<open>
  A call keeps the plan tiers if it deletes no \<open>plan_config\<close> row and assigns
  no row another \<open>plan_tier\<close>.
\<close>

fun keeps_plan_tiers :: "call \<Rightarrow> bool" where
  "keeps_plan_tiers (Delete_plan_config cond) = False"
| "keeps_plan_tiers (Update_plan_config cond assign) =
     (\<forall>p. pc_plan_tier (assign p) = pc_plan_tier p)"
| "keeps_plan_tiers c = True"

section \<open>ConfigSync\<close>

text \<open>
  A plan-change notification of the payment provider: the provider's event id, the
  event type, the raw payload, and what the payload says: the tenant it refers to
  and that tenant's new plan tier and subscription status.
\<close>

record notification =
  n_event_id :: string
  n_event_type :: string
  n_payload :: string
  n_tenant :: uuid
  n_plan_tier :: string
  n_subscription_status :: string

datatype response = Ack | Failed sql_error

definition mark_processed :: "string \<Rightarrow> db \<Rightarrow> db" where
  "mark_processed event_id d =
     d\<lparr>billing_events :=
         map (\<lambda>e. if be_event_id e = event_id then e\<lparr>be_processed := True\<rparr> else e)
           (billing_events d)\<rparr>"

text \<open>
  Modelled from the spec: the ConfigSync handler that consumes plan-change
  notifications is not among the sources (only the \<open>billing_events\<close> and
  \<open>tenants\<close> tables it writes are). Following the spec: if the event id already
  exists in \<open>billing_events\<close>, acknowledge without reprocessing; otherwise persist
  the event row, then apply the tenant update, then mark the event processed, in
  that order, so that a failure of the update leaves the event recorded and
  unprocessed. \<open>new_id\<close> is the id drawn for the event row.
\<close>

definition config_sync :: "db \<Rightarrow> timestamptz \<Rightarrow> uuid \<Rightarrow> notification \<Rightarrow> response \<times> db" where
  "config_sync d now new_id n =
     (if n_event_id n \<in> set (map be_event_id (billing_events d)) then (Ack, d)
      else case insert_billing_events d
                  \<lparr>be_id = new_id, be_event_id = n_event_id n,
                   be_event_type = n_event_type n, be_payload = n_payload n,
                   be_processed = False, be_created_at = now\<rparr> of
             Inl e \<Rightarrow> (Failed e, d)
           | Inr d1 \<Rightarrow>
               (case update_tenants d1 now (\<lambda>t. t_id t = n_tenant n)
                       (\<lambda>t. t\<lparr>t_plan_tier := n_plan_tier n,
                               t_subscription_status := n_subscription_status n\<rparr>) of
                  Inl e \<Rightarrow> (Failed e, d1)
                | Inr d2 \<Rightarrow> (Ack, mark_processed (n_event_id n) d2)))"

section \<open>Schema invariants\<close>

text \<open>Every tenant row passes the two CHECK constraints of its table.\<close>

definition tenant_checks :: "db \<Rightarrow> bool" where
  "tenant_checks d = (\<forall>t\<in>set (tenants d). valid_plan_tier t \<and> valid_subscription_status t)"

text \<open>No two \<open>plan_config\<close> rows have the same tier.\<close>

definition unique_plan_tiers :: "db \<Rightarrow> bool" where
  "unique_plan_tiers d = distinct (map pc_plan_tier (plan_config d))"

text \<open>Each of the four plan tiers has exactly one \<open>plan_config\<close> row.\<close>

definition one_plan_per_tier :: "db \<Rightarrow> bool" where
  "one_plan_per_tier d =
     (\<forall>tier\<in>set [''free'', ''starter'', ''professional'', ''enterprise''].
        length (filter (\<lambda>p. pc_plan_tier p = tier) (plan_config d)) = 1)"

section \<open>Example data\<close>

text \<open>
  A moment on 3 February 2024 (22:40 UTC), and the last microsecond of January
  and the first of February 2024 in UTC.
\<close>

definition ex_now :: timestamptz where
  "ex_now = 1707000000000000"

definition ex_last_of_january :: timestamptz where
  "ex_last_of_january = 1706745599999999"

definition ex_first_of_february :: timestamptz where
  "ex_first_of_february = 1706745600000000"

text \<open>The time zone five and a half hours east of Greenwich.\<close>

definition ex_tz_east :: time_zone where
  "ex_tz_east = fixed_zone 19800000000"

text \<open>
  A time zone with daylight saving, as in London in 2024: an hour ahead of UTC
  from 31 March, 1:00 UTC, to 27 October, 1:00 UTC; on the wall clock, from 2:00
  on 31 March to 2:00 on 27 October.
\<close>

definition ex_tz_summer :: time_zone where
  "ex_tz_summer =
     \<lparr>utc_offset = (\<lambda>t. if 1711846800000000 \<le> t \<and> t < 1729990800000000
                         then 3600000000 else 0),
      wall_offset = (\<lambda>l. if 1711850400000000 \<le> l \<and> l < 1729994400000000
                          then 3600000000 else 0)\<rparr>"

text \<open>Half an hour before midnight UTC on 31 March 2024.\<close>

definition ex_end_of_march :: timestamptz where
  "ex_end_of_march = 1711927800000000"

definition ex_tenant :: "uuid \<Rightarrow> string \<Rightarrow> string \<Rightarrow> string \<Rightarrow> tenants_row" where
  "ex_tenant i slug tier status =
     \<lparr>t_id = i, t_name = ''Acme'', t_slug = slug, t_stripe_customer_id = None,
      t_stripe_subscription_id = Some ''sub_1'', t_plan_tier = tier,
      t_subscription_status = status, t_sso_enabled = Some False, t_sso_provider = None,
      t_sso_domain = None, t_created_at = 1700000000000000,
      t_updated_at = 1700000000000000\<rparr>"

definition ex_log :: "uuid \<Rightarrow> uuid \<Rightarrow> int4 \<Rightarrow> timestamptz \<Rightarrow> usage_logs_row" where
  "ex_log i tid n ts =
     \<lparr>ul_id = i, ul_tenant_id = tid, ul_api_key_id = None, ul_endpoint = ''search'',
      ul_query_count = n, ul_cache_hit = False, ul_latency_ms = 120, ul_status_code = 200,
      ul_created_at = ts\<rparr>"

definition ex_free_plan :: plan_config_row where
  "ex_free_plan =
     default_plan 100 0 ''free'' 1000 10 [''single_search'', ''basic_support''] 0"

text \<open>A tenant on the free plan that has used 997 of its 1000 queries this month.\<close>

definition ex_db :: db where
  "ex_db = empty_db
     \<lparr>tenants := [ex_tenant 1 ''acme'' ''free'' ''active''],
      usage_logs := [ex_log 10 1 997 1706900000000000],
      plan_config := [ex_free_plan]\<rparr>"

text \<open>The same, with the usage of a second tenant logged as well.\<close>

definition ex_db_two_tenants :: db where
  "ex_db_two_tenants = ex_db
     \<lparr>tenants := [ex_tenant 1 ''acme'' ''free'' ''active'',
                  ex_tenant 2 ''bolt'' ''free'' ''active''],
      usage_logs := [ex_log 11 2 40 1706800000000000, ex_log 10 1 997 1706900000000000,
                     ex_log 12 2 2 1706950000000000]\<rparr>"

text \<open>A tenant whose only usage was logged in the last microsecond of January.\<close>

definition ex_db_january :: db where
  "ex_db_january = empty_db
     \<lparr>tenants := [ex_tenant 1 ''acme'' ''free'' ''active''],
      usage_logs := [ex_log 10 1 7 ex_last_of_january],
      plan_config := [ex_free_plan]\<rparr>"

text \<open>
  A tenant with a row in the last microsecond of January, one in the first of
  February and one on 2 February, beside a row of another tenant.
\<close>

definition ex_db_february :: db where
  "ex_db_february = ex_db
     \<lparr>usage_logs := [ex_log 10 1 7 ex_last_of_january, ex_log 11 1 20 ex_first_of_february,
                     ex_log 12 2 40 1706800000000000, ex_log 13 1 5 1706900000000000]\<rparr>"

text \<open>
  The rows of the second tenant in the opposite order, among other rows of the
  first.
\<close>

definition ex_db_reordered :: db where
  "ex_db_reordered = ex_db_two_tenants
     \<lparr>usage_logs := [ex_log 12 2 2 1706950000000000, ex_log 13 1 1 1706900000000001,
                     ex_log 14 1 8 1706900000000002, ex_log 11 2 40 1706800000000000]\<rparr>"

text \<open>
  Two tenants, a user and an API key of the first, and a log row of each tenant,
  the second tenant's made with that key.
\<close>

definition ex_user :: users_row where
  "ex_user =
     \<lparr>u_id = 20, u_tenant_id = 1, u_email = ''owner@acme.io'', u_password_hash = None,
      u_auth_provider = ''email'', u_workos_user_id = None, u_role = ''owner'',
      u_status = ''active'', u_created_at = 1700000000000000,
      u_updated_at = 1700000000000000\<rparr>"

definition ex_key :: api_keys_row where
  "ex_key =
     \<lparr>ak_id = 30, ak_tenant_id = 1, ak_user_id = 20, ak_name = ''default'',
      ak_key_hash = ''5e884898da28'', ak_key_prefix = ''ns_live_5e88'', ak_scopes = [''search''],
      ak_rate_limit_override = None, ak_expires_at = None, ak_last_used_at = None,
      ak_is_active = True, ak_created_at = 1700000000000000\<rparr>"

definition ex_db_keys :: db where
  "ex_db_keys = ex_db_two_tenants
     \<lparr>users := [ex_user], api_keys := [ex_key],
      usage_logs := [(ex_log 11 2 40 1706800000000000)\<lparr>ul_api_key_id := Some 30\<rparr>,
                     ex_log 10 1 997 1706900000000000]\<rparr>"

text \<open>A tenant with rows logged on 31 March 2024 at 22:00 and at 23:10 UTC.\<close>

definition ex_db_march :: db where
  "ex_db_march = ex_db
     \<lparr>usage_logs := [ex_log 10 1 9 1711922400000000, ex_log 11 1 4 1711926600000000]\<rparr>"

text \<open>A tenant on the starter plan whose payment is overdue.\<close>

definition ex_db_past_due :: db where
  "ex_db_past_due = ex_db\<lparr>tenants := [ex_tenant 1 ''acme'' ''starter'' ''past_due'']\<rparr>"

text \<open>A log row of July 2023 beside the one of February 2024.\<close>

definition ex_db_old_log :: db where
  "ex_db_old_log = ex_db
     \<lparr>usage_logs := [ex_log 9 1 5 1690000000000000, ex_log 10 1 997 1706900000000000]\<rparr>"

text \<open>The database right after migration 001, run at time 0 with the ids 1 to 4.\<close>

definition ex_migrated :: db where
  "ex_migrated = empty_db
     \<lparr>plan_config :=
        [default_plan 1 0 ''free'' 1000 10 [''single_search'', ''basic_support''] 0,
         default_plan 2 0 ''starter'' 10000 60
           [''single_search'', ''batch_search'', ''email_support''] 2900,
         default_plan 3 0 ''professional'' 100000 300
           [''single_search'', ''batch_search'', ''priority_support'', ''analytics''] 9900,
         default_plan 4 0 ''enterprise'' 1000000 1000
           [''single_search'', ''batch_search'', ''sso'', ''dedicated_support'',
            ''analytics'', ''sla''] 49900]\<rparr>"

text \<open>A signup followed by an upgrade to the starter plan.\<close>

definition ex_signup :: "(time_zone \<times> timestamptz \<times> call) list" where
  "ex_signup =
     [(utc, ex_now, Create_tenant_with_owner 7 8 (Some ''Acme'') (Some ''acme'')
                    (Some ''Owner@acme.io'') None),
      (utc, ex_now, Change_tenant_plan (Some 7) (Some ''starter'') (Some ''sub_9''))]"

text \<open>The same, followed by a change of the starter plan's quota.\<close>

definition ex_requota :: "(time_zone \<times> timestamptz \<times> call) list" where
  "ex_requota =
     ex_signup @
     [(utc, ex_now, Update_plan_config (\<lambda>p. pc_plan_tier p = ''starter'')
                    (\<lambda>p. p\<lparr>pc_queries_per_month := 20000\<rparr>))]"

text \<open>A signup on the free plan, after which the free plan's row is deleted.\<close>

definition ex_unplanned :: "(time_zone \<times> timestamptz \<times> call) list" where
  "ex_unplanned =
     [(utc, ex_now, Create_tenant_with_owner 7 8 (Some ''Acme'') (Some ''acme'')
                    (Some ''Owner@acme.io'') None),
      (utc, ex_now, Delete_plan_config (\<lambda>p. pc_plan_tier p = ''free''))]"

text \<open>
  A signup, a payment that falls overdue, and an attempt to store a status the
  table does not know.
\<close>

definition ex_dunning :: "(time_zone \<times> timestamptz \<times> call) list" where
  "ex_dunning =
     [(utc, ex_now, Create_tenant_with_owner 7 8 (Some ''Acme'') (Some ''acme'')
                    (Some ''Owner@acme.io'') None),
      (utc, ex_now, Update_tenants (\<lambda>t. t_id t = 7)
                    (\<lambda>t. t\<lparr>t_subscription_status := ''past_due''\<rparr>)),
      (utc, ex_now, Update_tenants (\<lambda>t. t_id t = 7)
                    (\<lambda>t. t\<lparr>t_subscription_status := ''unpaid''\<rparr>))]"

text \<open>A plan-change notification for tenant 1, and the database after its delivery.\<close>

definition ex_notification :: "string \<Rightarrow> string \<Rightarrow> notification" where
  "ex_notification event_id tier =
     \<lparr>n_event_id = event_id, n_event_type = ''customer.subscription.updated'',
      n_payload = ''{}'', n_tenant = 1, n_plan_tier = tier,
      n_subscription_status = ''active''\<rparr>"

definition ex_db_synced :: db where
  "ex_db_synced = ex_db
     \<lparr>tenants := [(ex_tenant 1 ''acme'' ''starter'' ''active'')\<lparr>t_updated_at := ex_now\<rparr>],
      billing_events :=
        [\<lparr>be_id = 500, be_event_id = ''evt_1'',
          be_event_type = ''customer.subscription.updated'', be_payload = ''{}'',
          be_processed = True, be_created_at = ex_now\<rparr>]\<rparr>"

section \<open>Auxiliary facts\<close>

lemma sint_to_int4: "to_int4 x = Inr v \<Longrightarrow> sint v = x"
  by (auto simp: to_int4_def signed_take_bit_int_eq_self sint_sbintrunc' split: if_splits)


lemma coalesce_sql_sum: "coalesce (sql_sum xs) 0 = sum_list xs"
  by (simp add: coalesce_def sql_sum_def)

lemma get_monthly_query_count_sum:
  "get_monthly_query_count d tz now t =
     to_int4 (\<Sum>r\<leftarrow>monthly_rows d tz now t. sint (ul_query_count r))"
  by (simp add: get_monthly_query_count_def coalesce_sql_sum)

lemma select_plan_tier_None:
  "\<forall>t\<in>set (tenants d). Some (t_id t) \<noteq> p \<Longrightarrow> select_plan_tier d p = None"
  by (simp add: select_plan_tier_def select_into_def filter_empty_conv[THEN iffD2])

lemma monthly_rows_tenant:
  "monthly_rows d tz now (Some T) =
     filter (\<lambda>r. date_trunc_month tz now \<le> ul_created_at r)
       (filter (\<lambda>r. ul_tenant_id r = T) (usage_logs d))"
  by (simp add: monthly_rows_def)

lemma usage_stats_rows_tenant:
  "usage_stats_rows d (Some T) lo hi =
     filter (\<lambda>ul. between (ul_created_at ul) lo hi = Some True)
       (filter (\<lambda>r. ul_tenant_id r = T) (usage_logs d))"
  by (simp add: usage_stats_rows_def)

subsection \<open>The calendar\<close>

lemma days_in_year_bounds: "365 \<le> days_in_year y \<and> days_in_year y \<le> 366"
  by (simp add: days_in_year_def)

lemma days_in_month_bounds: "28 \<le> days_in_month y m \<and> days_in_month y m \<le> 31"
  by (simp add: days_in_month_def)

lemma days_before_year_next: "days_before_year (y + 1) = days_before_year y + days_in_year y"
proof -
  consider "1970 \<le> y" | "y = 1969" | "y < 1969" by linarith
  then show ?thesis
  proof cases
    case 1
    then have "[1970..y] = [1970..y - 1] @ [y]" by (simp add: upto_rec2)
    then show ?thesis using 1 by (simp add: days_before_year_def)
  next
    case 2
    then show ?thesis by (simp add: days_before_year_def)
  next
    case 3
    then have "[y..1969] = y # [y + 1..1969]" by (simp add: upto_rec1)
    then show ?thesis using 3 by (simp add: days_before_year_def)
  qed
qed

lemma days_before_year_mono:
  assumes "y < y'"
  shows "days_before_year y + days_in_year y \<le> days_before_year y'"
proof -
  from assms have "y + 1 \<le> y'" by simp
  then have "days_before_year (y + 1) \<le> days_before_year y'"
  proof (induction y' rule: int_ge_induct)
    case base
    then show ?case by simp
  next
    case (step i)
    then show ?case
      using days_before_year_next [of i] days_in_year_bounds [of i] by linarith
  qed
  then show ?thesis by (simp add: days_before_year_next)
qed

lemma days_before_month_next:
  "1 \<le> m \<Longrightarrow> days_before_month y (m + 1) = days_before_month y m + days_in_month y m"
  by (simp add: days_before_month_def upto_rec2)

lemma days_before_month_mono:
  assumes m: "1 \<le> m" and "m < m'"
  shows "days_before_month y m + days_in_month y m \<le> days_before_month y m'"
proof -
  from assms have "m + 1 \<le> m'" by simp
  then have "days_before_month y (m + 1) \<le> days_before_month y m'"
  proof (induction m' rule: int_ge_induct)
    case base
    then show ?case by simp
  next
    case (step i)
    then show ?case
      using days_before_month_next [of i y] days_in_month_bounds [of y i] m by linarith
  qed
  then show ?thesis using m by (simp add: days_before_month_next)
qed

lemma days_before_month_1: "days_before_month y 1 = 0"
  by (simp add: days_before_month_def)

text \<open>The twelve months make up the year.\<close>

lemma days_before_month_13: "days_before_month y 13 = days_in_year y"
  by (simp add: days_before_month_def days_in_month_def days_in_year_def upto_rec1)

lemma month_within_year:
  assumes "1 \<le> m" "m \<le> 12"
  shows "0 \<le> days_before_month y m
       \<and> days_before_month y m + days_in_month y m \<le> days_in_year y"
proof -
  have 1: "0 \<le> days_before_month y m"
    using days_before_month_mono [of 1 m y] days_before_month_1 [of y]
      days_in_month_bounds [of y 1] assms(1) by (cases "m = 1") auto
  have 2: "days_before_month y m + days_in_month y m \<le> days_in_year y"
    using days_before_month_mono [of m 13 y] days_before_month_13 [of y] assms by simp
  from 1 2 show ?thesis by simp
qed

lemma year_of_day_sound:
  "year_of_day y0 n = (y, k) \<Longrightarrow>
     0 \<le> k \<and> k < days_in_year y \<and> days_before_year y + k = days_before_year y0 + n"
proof (induction y0 n rule: year_of_day.induct)
  case (1 y0 n)
  show ?case
  proof (cases "n < 0")
    case True
    then have "year_of_day (y0 - 1) (n + days_in_year (y0 - 1)) = (y, k)"
      using "1.prems" by (subst (asm) year_of_day.simps) simp
    from "1.IH"(1) [OF True this] show ?thesis
      using days_before_year_next [of "y0 - 1"] by simp
  next
    case False
    show ?thesis
    proof (cases "days_in_year y0 \<le> n")
      case True
      then have "year_of_day (y0 + 1) (n - days_in_year y0) = (y, k)"
        using "1.prems" False by (subst (asm) year_of_day.simps) simp
      from "1.IH"(2) [OF False True this] show ?thesis
        using days_before_year_next [of y0] by simp
    next
      case n: False
      then have "(y, k) = (y0, n)"
        using "1.prems" False by (subst (asm) year_of_day.simps) simp
      then show ?thesis using False n by simp
    qed
  qed
qed

lemma month_of_day_sound:
  "month_of_day y m0 n = (m, k) \<Longrightarrow> 1 \<le> m0 \<Longrightarrow> m0 \<le> 12 \<Longrightarrow> 0 \<le> n \<Longrightarrow>
     days_before_month y m0 + n < days_in_year y \<Longrightarrow>
     m0 \<le> m \<and> m \<le> 12 \<and> 0 \<le> k \<and> k < days_in_month y m
     \<and> days_before_month y m + k = days_before_month y m0 + n"
proof (induction y m0 n rule: month_of_day.induct)
  case (1 y m0 n)
  show ?case
  proof (cases "m0 < 12 \<and> days_in_month y m0 \<le> n")
    case True
    then have r: "month_of_day y (m0 + 1) (n - days_in_month y m0) = (m, k)"
      using "1.prems"(1) by (subst (asm) month_of_day.simps) simp
    have "m0 + 1 \<le> m \<and> m \<le> 12 \<and> 0 \<le> k \<and> k < days_in_month y m
       \<and> days_before_month y m + k
           = days_before_month y (m0 + 1) + (n - days_in_month y m0)"
      using "1.IH" [OF True r] True "1.prems" by (simp add: days_before_month_next)
    then show ?thesis using "1.prems" by (simp add: days_before_month_next)
  next
    case False
    then have e: "(m, k) = (m0, n)"
      using "1.prems"(1) by (subst (asm) month_of_day.simps) (auto split: if_splits)
    show ?thesis
    proof (cases "m0 < 12")
      case True
      then show ?thesis using e False "1.prems" by auto
    next
      case f: False
      then have "m0 = 12" using "1.prems" by simp
      then have "days_before_month y 12 + days_in_month y 12 = days_in_year y"
        using days_before_month_next [of 12 y] days_before_month_13 [of y] by simp
      then show ?thesis using e \<open>m0 = 12\<close> "1.prems" by auto
    qed
  qed
qed

text \<open>
  Every instant lies in a calendar month, and \<open>DATE_TRUNC\<close> gives the start of
  that month.
\<close>

lemma date_trunc_month_in_month:
  "\<exists>y m. in_calendar_month tz y m t
     \<and> date_trunc_month tz t = start_of_calendar_month tz y m"
proof -
  define l where "l = t + utc_offset tz t"
  define z where "z = l div 86400000000"
  define r where "r = l mod 86400000000"
  have t: "l = 86400000000 * z + r" unfolding z_def r_def by simp
  have r: "0 \<le> r" "r < 86400000000" unfolding r_def by simp_all
  obtain y n where yn: "year_of_day 1970 z = (y, n)" by (cases "year_of_day 1970 z")
  obtain m k where mk: "month_of_day y 1 n = (m, k)" by (cases "month_of_day y 1 n")
  have d0: "days_before_year 1970 = 0" by (simp add: days_before_year_def)
  from year_of_day_sound [OF yn] d0
  have n: "0 \<le> n" "n < days_in_year y" "days_before_year y + n = z" by simp_all
  from month_of_day_sound [OF mk] n days_before_month_1 [of y]
  have k: "1 \<le> m" "m \<le> 12" "0 \<le> k" "k < days_in_month y m" "days_before_month y m + k = n"
    by simp_all
  have s: "z - k = days_before_year y + days_before_month y m" using n k by simp
  have f: "first_midnight y m = (z - k) * usecs_per_day"
    unfolding first_midnight_def s ..
  have "date_trunc_month tz t
          = (z - k) * usecs_per_day - wall_offset tz ((z - k) * usecs_per_day)"
    by (simp add: date_trunc_month_def Let_def usecs_per_day_def l_def [symmetric]
        z_def [symmetric] yn mk)
  then have dt: "date_trunc_month tz t = start_of_calendar_month tz y m"
    unfolding start_of_calendar_month_def f .
  have ms: "first_midnight y m = 86400000000 * (z - k)"
    by (simp add: f usecs_per_day_def)
  have lo: "first_midnight y m \<le> l"
    using t r k(3) unfolding ms by (simp add: algebra_simps)
  have "86400000000 * (k + 1) \<le> 86400000000 * days_in_month y m" using k(4) by simp
  then have hi: "l < first_midnight y m + days_in_month y m * usecs_per_day"
    using t r unfolding ms usecs_per_day_def by (simp add: algebra_simps)
  from k(1,2) dt lo hi show ?thesis unfolding in_calendar_month_def l_def by blast
qed

text \<open>The calendar months do not overlap.\<close>

lemma in_calendar_month_unique:
  assumes a: "in_calendar_month tz y m t" and b: "in_calendar_month tz y' m' t"
  shows "y' = y \<and> m' = m"
proof -
  define l where "l = t + utc_offset tz t"
  from a have m: "1 \<le> m" "m \<le> 12"
    and t: "first_midnight y m \<le> l"
      "l < first_midnight y m + days_in_month y m * usecs_per_day"
    by (simp_all add: in_calendar_month_def l_def)
  from b have m': "1 \<le> m'" "m' \<le> 12"
    and t': "first_midnight y' m' \<le> l"
      "l < first_midnight y' m' + days_in_month y' m' * usecs_per_day"
    by (simp_all add: in_calendar_month_def l_def)
  define s where "s = days_before_year y + days_before_month y m"
  define s' where "s' = days_before_year y' + days_before_month y' m'"
  have a: "86400000000 * s \<le> l"
    "l < 86400000000 * s + 86400000000 * days_in_month y m"
    using t by (simp_all add: first_midnight_def usecs_per_day_def s_def algebra_simps)
  have b: "86400000000 * s' \<le> l"
    "l < 86400000000 * s' + 86400000000 * days_in_month y' m'"
    using t' by (simp_all add: first_midnight_def usecs_per_day_def s'_def algebra_simps)
  have ov: "s < s' + days_in_month y' m'" "s' < s + days_in_month y m"
    using a b by linarith+
  have y: "y' = y"
  proof (rule ccontr)
    assume "y' \<noteq> y"
    then consider "y < y'" | "y' < y" by linarith
    then show False
    proof cases
      case 1
      from days_before_year_mono [OF 1] month_within_year [OF m, of y]
        month_within_year [OF m', of y'] ov
      show False unfolding s_def s'_def by linarith
    next
      case 2
      from days_before_year_mono [OF 2] month_within_year [OF m, of y]
        month_within_year [OF m', of y'] ov
      show False unfolding s_def s'_def by linarith
    qed
  qed
  have "m' = m"
  proof (rule ccontr)
    assume "m' \<noteq> m"
    then consider "m < m'" | "m' < m" by linarith
    then show False
    proof cases
      case 1
      from days_before_month_mono [OF m(1) 1, of y] ov show False
        unfolding s_def s'_def y by linarith
    next
      case 2
      from days_before_month_mono [OF m'(1) 2, of y] ov show False
        unfolding s_def s'_def y by linarith
    qed
  qed
  with y show ?thesis by simp
qed

lemma date_trunc_month_start:
  assumes "in_calendar_month tz y m t"
  shows "date_trunc_month tz t = start_of_calendar_month tz y m"
proof -
  from date_trunc_month_in_month [of tz t] obtain y' m' where
    p: "in_calendar_month tz y' m' t"
      "date_trunc_month tz t = start_of_calendar_month tz y' m'"
    by blast
  from in_calendar_month_unique [OF assms p(1)] p(2) show ?thesis by simp
qed

text \<open>
  The wall-clock midnight at which a month ends is the one at which the next
  month begins.
\<close>

lemma first_midnight_next:
  assumes "1 \<le> m" "m \<le> 12"
  shows "first_midnight y m + days_in_month y m * usecs_per_day
           = (if m = 12 then first_midnight (y + 1) 1 else first_midnight y (m + 1))"
proof (cases "m = 12")
  case True
  have "days_before_year (y + 1) + days_before_month (y + 1) 1
          = days_before_year y + days_before_month y 12 + days_in_month y 12"
    using days_before_month_next [of 12 y] days_before_month_13 [of y]
    by (simp add: days_before_year_next days_before_month_1)
  then show ?thesis using True by (simp add: first_midnight_def distrib_right)
next
  case False
  have "days_before_year y + days_before_month y (m + 1)
          = days_before_year y + days_before_month y m + days_in_month y m"
    using assms by (simp add: days_before_month_next)
  then show ?thesis using False by (simp add: first_midnight_def distrib_right)
qed

text \<open>
  In a time zone with a constant offset, an instant is in a month from the
  month's start up to the start of the next month.
\<close>

lemma in_calendar_month_fixed_zone:
  "in_calendar_month (fixed_zone c) y m t =
     (1 \<le> m \<and> m \<le> 12 \<and> start_of_calendar_month (fixed_zone c) y m \<le> t
      \<and> t < start_of_calendar_month (fixed_zone c) y m + days_in_month y m * usecs_per_day)"
  by (auto simp: in_calendar_month_def start_of_calendar_month_def fixed_zone_def)

text \<open>Some month starts in UTC, and \<open>DATE_TRUNC\<close> on some instants.\<close>

lemma start_of_calendar_month_anchors:
  "start_of_calendar_month utc 1970 1 = 0
   \<and> start_of_calendar_month utc 1969 12 = - 2678400000000
   \<and> start_of_calendar_month utc 1900 3 = - 2203891200000000
   \<and> start_of_calendar_month utc 2000 3 = 951868800000000
   \<and> start_of_calendar_month utc 2023 3 = 1677628800000000
   \<and> start_of_calendar_month utc 2024 3 = 1709251200000000
   \<and> start_of_calendar_month utc 2025 1 = 1735689600000000
   \<and> start_of_calendar_month utc 2100 3 = 4107542400000000"
  by code_simp

lemma date_trunc_month_examples:
  "date_trunc_month utc 1709208000000000 = 1706745600000000
   \<and> date_trunc_month utc 1709251199999999 = 1706745600000000
   \<and> date_trunc_month utc 1709251200000000 = 1709251200000000
   \<and> date_trunc_month utc (- 1000000) = - 2678400000000
   \<and> date_trunc_month (fixed_zone 19800000000) 1706745599999999 = 1706725800000000
   \<and> date_trunc_month (fixed_zone (- 18000000000)) 1706745600000000 = 1704085200000000
   \<and> date_trunc_month ex_tz_summer 1711927800000000 = 1711926000000000
   \<and> date_trunc_month ex_tz_summer 1711926000000000 = 1711926000000000
   \<and> date_trunc_month ex_tz_summer 1711925999999999 = 1709251200000000"
  by code_simp

subsection \<open>February and March 2024\<close>

lemma days_before_year_2024: "days_before_year 2024 = 19723"
  by (simp add: days_before_year_def days_in_year_def is_leap_year_def upto_rec1)

lemma first_midnight_2024:
  "first_midnight 2024 1 = 1704067200000000 \<and> first_midnight 2024 2 = 1706745600000000
   \<and> first_midnight 2024 3 = 1709251200000000 \<and> first_midnight 2024 4 = 1711929600000000"
  by (simp add: first_midnight_def days_before_year_2024 days_before_month_def
      days_in_month_def is_leap_year_def usecs_per_day_def upto_rec1)

lemma ex_start_of_january: "start_of_calendar_month utc 2024 1 = 1704067200000000"
  by (simp add: start_of_calendar_month_def first_midnight_2024 utc_def fixed_zone_def)

lemma ex_start_of_february: "start_of_calendar_month utc 2024 2 = ex_first_of_february"
  by (simp add: start_of_calendar_month_def first_midnight_2024 utc_def fixed_zone_def
      ex_first_of_february_def)

lemma ex_start_of_march: "start_of_calendar_month utc 2024 3 = 1709251200000000"
  by (simp add: start_of_calendar_month_def first_midnight_2024 utc_def fixed_zone_def)

lemma ex_start_of_february_east:
  "start_of_calendar_month ex_tz_east 2024 2 = 1706725800000000"
  by (simp add: start_of_calendar_month_def first_midnight_2024 ex_tz_east_def
      fixed_zone_def)

lemma ex_start_of_april_summer:
  "start_of_calendar_month ex_tz_summer 2024 4 = 1711926000000000"
  by (simp add: start_of_calendar_month_def first_midnight_2024 ex_tz_summer_def)

lemma ex_now_in_february: "in_calendar_month utc 2024 2 ex_now"
  by (simp add: in_calendar_month_def first_midnight_2024 days_in_month_def
      is_leap_year_def usecs_per_day_def utc_def fixed_zone_def ex_now_def)

lemma ex_first_of_february_in_february: "in_calendar_month utc 2024 2 ex_first_of_february"
  by (simp add: in_calendar_month_def first_midnight_2024 days_in_month_def
      is_leap_year_def usecs_per_day_def utc_def fixed_zone_def ex_first_of_february_def)

lemma ex_last_of_january_in_january: "in_calendar_month utc 2024 1 ex_last_of_january"
  by (simp add: in_calendar_month_def first_midnight_2024 days_in_month_def
      usecs_per_day_def utc_def fixed_zone_def ex_last_of_january_def)

lemma ex_first_of_february_east: "in_calendar_month ex_tz_east 2024 2 ex_first_of_february"
  by (simp add: in_calendar_month_def first_midnight_2024 days_in_month_def
      is_leap_year_def usecs_per_day_def ex_tz_east_def fixed_zone_def
      ex_first_of_february_def)

lemma ex_end_of_march_in_march: "in_calendar_month utc 2024 3 ex_end_of_march"
  by (simp add: in_calendar_month_def first_midnight_2024 days_in_month_def
      usecs_per_day_def utc_def fixed_zone_def ex_end_of_march_def)

lemma ex_end_of_march_in_april: "in_calendar_month ex_tz_summer 2024 4 ex_end_of_march"
  by (simp add: in_calendar_month_def first_midnight_2024 days_in_month_def
      usecs_per_day_def ex_tz_summer_def ex_end_of_march_def)

lemma date_trunc_month_ex_now: "date_trunc_month utc ex_now = ex_first_of_february"
  using date_trunc_month_start [OF ex_now_in_february] by (simp add: ex_start_of_february)

subsection \<open>The example database\<close>

lemma ex_monthly_rows:
  "monthly_rows ex_db utc ex_now (Some 1) = [ex_log 10 1 997 1706900000000000]"
  by (simp add: monthly_rows_def ex_db_def date_trunc_month_ex_now ex_log_def
      ex_first_of_february_def)

lemma ex_used: "(\<Sum>r\<leftarrow>monthly_rows ex_db utc ex_now (Some 1). sint (ul_query_count r)) = 997"
  by (simp add: ex_monthly_rows ex_log_def)

lemma ex_tier: "select_plan_tier ex_db (Some 1) = Some ''free''"
  by (simp add: select_plan_tier_def select_into_def ex_db_def ex_tenant_def)

lemma ex_quota: "select_queries_per_month ex_db ''free'' = Some 1000"
  by (simp add: select_queries_per_month_def select_into_def ex_db_def ex_free_plan_def
      default_plan_def)


lemma ex_check_3: "check_tenant_quota ex_db utc ex_now (Some 1) (Some 3) = Inr (Some True)"
  by (simp add: check_tenant_quota_def ex_tier ex_quota get_monthly_query_count_sum ex_used
      to_int4_def bind_err_def int4pl_def int4le_def)

subsection \<open>What each operation changes\<close>

lemma varchar_fits: "length s \<le> n \<Longrightarrow> varchar n s = Inr s"
  by (simp add: varchar_def)

lemma update_where_list_all2:
  "update_where P f xs = Inr ys \<Longrightarrow>
     list_all2 (\<lambda>x y. (P x \<longrightarrow> f x = Inr y) \<and> (\<not> P x \<longrightarrow> y = x)) xs ys"
proof (induction xs arbitrary: ys)
  case Nil
  then show ?case by simp
next
  case (Cons x xs)
  then show ?case
    by (auto simp: bind_err_def split: if_splits sum.splits)
qed

lemma update_where_none:
  "\<forall>x\<in>set xs. \<not> P x \<Longrightarrow> update_where P f xs = Inr xs"
  by (induction xs) (auto simp: bind_err_def)

lemma update_where_all:
  "update_where P f xs = Inr ys \<Longrightarrow> \<forall>x\<in>set xs. Q x \<Longrightarrow> (\<And>x y. f x = Inr y \<Longrightarrow> Q y) \<Longrightarrow>
     \<forall>y\<in>set ys. Q y"
proof (induction xs arbitrary: ys)
  case Nil
  then show ?case by simp
next
  case (Cons x xs)
  then show ?case
    by (auto simp: bind_err_def split: if_splits sum.splits)
qed

lemma change_tenant_plan_row_frame:
  assumes "change_tenant_plan_row now p_new_plan p_sub t = Inr t'"
  shows "t' = t\<lparr>t_plan_tier := t_plan_tier t',
               t_stripe_subscription_id := t_stripe_subscription_id t',
               t_subscription_status := t_subscription_status t',
               t_updated_at := t_updated_at t'\<rparr>
       \<and> (p_sub = None \<longrightarrow> t_stripe_subscription_id t' = t_stripe_subscription_id t)
       \<and> t_subscription_status t'
           = (if p_new_plan = Some ''free'' then ''active'' else t_subscription_status t)
       \<and> t_updated_at t' = now
       \<and> valid_plan_tier t' \<and> valid_subscription_status t'"
  using assms
  by (auto simp: change_tenant_plan_row_def bind_err_def varchar_opt_def Let_def
      update_updated_at_column_def
      split: sum.splits option.splits if_splits)

lemma tenants_constraints_Inr:
  "tenants_constraints d t = Inr d' \<Longrightarrow>
     d' = d\<lparr>tenants := tenants d @ [t]\<rparr> \<and> valid_plan_tier t \<and> valid_subscription_status t"
  by (auto simp: tenants_constraints_def split: if_splits)

lemma users_constraints_Inr:
  "users_constraints d u = Inr d' \<Longrightarrow> d' = d\<lparr>users := users d @ [u]\<rparr>"
  by (auto simp: users_constraints_def split: if_splits)

lemma insert_tenants_Inr:
  "insert_tenants d t = Inr d' \<Longrightarrow>
     \<exists>t'. d' = d\<lparr>tenants := tenants d @ [t']\<rparr> \<and> valid_plan_tier t'
            \<and> valid_subscription_status t'"
  by (auto simp: insert_tenants_def bind_err_def dest: tenants_constraints_Inr split: sum.splits)

lemma update_tenants_Inr:
  assumes "update_tenants d now cond assign = Inr d'"
  shows "\<exists>ts. d' = d\<lparr>tenants := ts\<rparr>
            \<and> update_where cond (update_tenants_row now assign) (tenants d) = Inr ts"
  using assms by (auto simp: update_tenants_def bind_err_def split: sum.splits if_splits)

lemma update_tenants_row_checks:
  "update_tenants_row now assign t = Inr t' \<Longrightarrow>
     valid_plan_tier t' \<and> valid_subscription_status t'"
  by (auto simp: update_tenants_row_def bind_err_def Let_def split: sum.splits if_splits)

lemma insert_users_Inr:
  "insert_users d u = Inr d' \<Longrightarrow> \<exists>u'. d' = d\<lparr>users := users d @ [u']\<rparr>"
  by (auto simp: insert_users_def bind_err_def dest: users_constraints_Inr split: sum.splits)

lemma insert_api_keys_Inr:
  "insert_api_keys d k = Inr d' \<Longrightarrow> \<exists>k'. d' = d\<lparr>api_keys := api_keys d @ [k']\<rparr>"
  by (auto simp: insert_api_keys_def bind_err_def split: sum.splits if_splits)

lemma insert_usage_logs_Inr:
  "insert_usage_logs d r = Inr d' \<Longrightarrow> \<exists>r'. d' = d\<lparr>usage_logs := usage_logs d @ [r']\<rparr>"
  by (auto simp: insert_usage_logs_def bind_err_def split: sum.splits if_splits)

lemma insert_billing_events_Inr:
  "insert_billing_events d e = Inr d' \<Longrightarrow>
     \<exists>e'. d' = d\<lparr>billing_events := billing_events d @ [e']\<rparr>
          \<and> varchar 255 (be_event_id e) = Inr (be_event_id e')
          \<and> be_event_id e' \<notin> set (map be_event_id (billing_events d))"
  by (auto simp: insert_billing_events_def bind_err_def split: sum.splits if_splits)

lemma insert_plan_config_Inr:
  "insert_plan_config d p = Inr d' \<Longrightarrow>
     \<exists>p'. d' = d\<lparr>plan_config := plan_config d @ [p']\<rparr>
          \<and> pc_plan_tier p' \<notin> set (map pc_plan_tier (plan_config d))
          \<and> pc_queries_per_month p' = pc_queries_per_month p"
  by (auto simp: insert_plan_config_def bind_err_def split: sum.splits if_splits)

lemma update_plan_config_Inr:
  assumes "update_plan_config d now cond assign = Inr d'"
  shows "\<exists>ps. d' = d\<lparr>plan_config := ps\<rparr>
            \<and> update_where cond (update_plan_config_row now assign) (plan_config d) = Inr ps
            \<and> distinct (map pc_plan_tier ps)"
  using assms by (auto simp: update_plan_config_def bind_err_def split: sum.splits if_splits)

lemma create_tenant_with_owner_Inr:
  "create_tenant_with_owner d now i j name slug email hash = Inr (ids, d') \<Longrightarrow>
     (\<exists>t. tenants d' = tenants d @ [t] \<and> t_plan_tier t = ''free''
           \<and> t_subscription_status t = ''active'')
     \<and> api_keys d' = api_keys d \<and> usage_logs d' = usage_logs d
     \<and> billing_events d' = billing_events d \<and> plan_config d' = plan_config d"
  by (auto simp: create_tenant_with_owner_def bind_err_def
      dest!: tenants_constraints_Inr users_constraints_Inr
      split: sum.splits option.splits)

lemma change_tenant_plan_Inr:
  "change_tenant_plan d now t plan sub = Inr (found, d') \<Longrightarrow>
     \<exists>ts. d' = d\<lparr>tenants := ts\<rparr>
        \<and> update_where (\<lambda>x. Some (t_id x) = t) (change_tenant_plan_row now plan sub) (tenants d)
            = Inr ts"
  by (auto simp: change_tenant_plan_def bind_err_def split: sum.splits)

lemma change_tenant_plan_other_tables:
  "change_tenant_plan d now t plan sub = Inr (found, d') \<Longrightarrow>
     users d' = users d \<and> api_keys d' = api_keys d \<and> usage_logs d' = usage_logs d
     \<and> billing_events d' = billing_events d \<and> plan_config d' = plan_config d"
  by (auto dest!: change_tenant_plan_Inr)

lemma cleanup_old_usage_logs_Inr:
  "cleanup_old_usage_logs d tz now n = Inr (v, d') \<Longrightarrow>
     d' = d\<lparr>usage_logs :=
            filter (\<lambda>r. case n of None \<Rightarrow> True
                         | Some k \<Rightarrow> \<not> ul_created_at r < days_earlier tz now (sint k))
              (usage_logs d)\<rparr>"
  by (auto simp: cleanup_old_usage_logs_def bind_err_def timestamptz_mi_days_def Let_def
      split: option.splits if_splits sum.splits)

lemma days_earlier_fixed_zone: "days_earlier (fixed_zone c) t n = t - n * usecs_per_day"
  by (simp add: days_earlier_def fixed_zone_def Let_def)

subsection \<open>What a DELETE changes\<close>

lemma delete_plan_config_tables:
  "tenants (delete_plan_config d c) = tenants d"
  "usage_logs (delete_plan_config d c) = usage_logs d"
  "plan_config (delete_plan_config d c) = filter (\<lambda>p. \<not> c p) (plan_config d)"
  by (simp_all add: delete_plan_config_def)

lemma delete_api_keys_tables:
  "tenants (delete_api_keys d c) = tenants d"
  "users (delete_api_keys d c) = users d"
  "api_keys (delete_api_keys d c) = filter (\<lambda>k. \<not> c k) (api_keys d)"
  "usage_logs (delete_api_keys d c)
     = map (set_null_api_key (map ak_id (filter c (api_keys d)))) (usage_logs d)"
  "plan_config (delete_api_keys d c) = plan_config d"
  by (simp_all add: delete_api_keys_def Let_def)

lemma delete_users_tables:
  "tenants (delete_users d c) = tenants d"
  "users (delete_users d c) = filter (\<lambda>u. \<not> c u) (users d)"
  "api_keys (delete_users d c)
     = filter (\<lambda>k. ak_user_id k \<notin> set (map u_id (filter c (users d)))) (api_keys d)"
  "usage_logs (delete_users d c)
     = map (set_null_api_key
              (map ak_id (filter (\<lambda>k. ak_user_id k \<in> set (map u_id (filter c (users d))))
                 (api_keys d))))
         (usage_logs d)"
  "plan_config (delete_users d c) = plan_config d"
  by (simp_all add: delete_users_def Let_def delete_api_keys_tables)

lemma set_null_api_key_if:
  "set_null_api_key gone r
     = (if ul_api_key_id r \<in> Some ` set gone then r\<lparr>ul_api_key_id := None\<rparr> else r)"
  by (auto simp: set_null_api_key_def split: option.splits)

lemma set_null_api_key_twice:
  "set_null_api_key g2 (set_null_api_key g1 r) = set_null_api_key (g1 @ g2) r"
  by (auto simp: set_null_api_key_def split: option.splits)

lemma set_null_api_key_tenant: "ul_tenant_id (set_null_api_key g r) = ul_tenant_id r"
  by (simp add: set_null_api_key_def split: option.splits)

lemma delete_tenants_tables:
  "tenants (delete_tenants d c) = filter (\<lambda>t. \<not> c t) (tenants d)"
  "api_keys (delete_tenants d c)
     = filter (\<lambda>k. ak_tenant_id k \<notin> set (map t_id (filter c (tenants d))))
         (filter (\<lambda>k. ak_user_id k \<notin> set (map u_id
                    (filter (\<lambda>u. u_tenant_id u \<in> set (map t_id (filter c (tenants d))))
                       (users d))))
            (api_keys d))"
  "plan_config (delete_tenants d c) = plan_config d"
  by (simp_all add: delete_tenants_def Let_def delete_users_tables delete_api_keys_tables)

text \<open>
  After a DELETE from \<open>tenants\<close>, \<open>users\<close> or \<open>api_keys\<close>, in terms of the rows
  that are gone: the log rows of the deleted tenants are gone, and a remaining log
  row is as it was unless its key is gone, in which case it has lost the
  reference.
\<close>

lemma removed_rows: "set xs - set (filter P xs) = {x \<in> set xs. \<not> P x}"
  by auto

lemma delete_api_keys_usage_logs:
  "usage_logs (delete_api_keys d c)
     = map (\<lambda>r. if ul_api_key_id r
                    \<in> Some ` ak_id ` (set (api_keys d) - set (api_keys (delete_api_keys d c)))
                then r\<lparr>ul_api_key_id := None\<rparr> else r)
         (usage_logs d)"
proof -
  have "Some ` set (map ak_id (filter c (api_keys d)))
          = Some ` ak_id ` (set (api_keys d) - set (api_keys (delete_api_keys d c)))"
    unfolding delete_api_keys_tables removed_rows by auto
  then show ?thesis
    by (simp add: delete_api_keys_tables set_null_api_key_if)
qed

lemma delete_users_usage_logs:
  "usage_logs (delete_users d c)
     = map (\<lambda>r. if ul_api_key_id r
                    \<in> Some ` ak_id ` (set (api_keys d) - set (api_keys (delete_users d c)))
                then r\<lparr>ul_api_key_id := None\<rparr> else r)
         (usage_logs d)"
proof -
  have "Some ` set (map ak_id (filter (\<lambda>k. ak_user_id k \<in> set (map u_id (filter c (users d))))
                 (api_keys d)))
          = Some ` ak_id ` (set (api_keys d) - set (api_keys (delete_users d c)))"
    unfolding delete_users_tables removed_rows by auto
  then show ?thesis
    by (simp add: delete_users_tables set_null_api_key_if)
qed

lemma delete_tenants_usage_logs:
  "usage_logs (delete_tenants d c)
     = map (\<lambda>r. if ul_api_key_id r
                    \<in> Some ` ak_id ` (set (api_keys d) - set (api_keys (delete_tenants d c)))
                then r\<lparr>ul_api_key_id := None\<rparr> else r)
         (filter (\<lambda>r. ul_tenant_id r
                    \<notin> t_id ` (set (tenants d) - set (tenants (delete_tenants d c))))
            (usage_logs d))"
proof -
  define gone where "gone = map t_id (filter c (tenants d))"
  define gone_users where
    "gone_users = map u_id (filter (\<lambda>u. u_tenant_id u \<in> set gone) (users d))"
  define g1 where
    "g1 = map ak_id (filter (\<lambda>k. ak_user_id k \<in> set gone_users) (api_keys d))"
  define g2 where
    "g2 = map ak_id (filter (\<lambda>k. ak_tenant_id k \<in> set gone)
                      (filter (\<lambda>k. ak_user_id k \<notin> set gone_users) (api_keys d)))"
  have logs: "usage_logs (delete_tenants d c)
                = filter (\<lambda>r. ul_tenant_id r \<notin> set gone)
                    (map (set_null_api_key (g1 @ g2)) (usage_logs d))"
    by (simp add: delete_tenants_def Let_def delete_users_tables delete_api_keys_tables
        gone_def gone_users_def g1_def g2_def set_null_api_key_twice comp_def)
  have keys: "api_keys (delete_tenants d c)
                = filter (\<lambda>k. ak_tenant_id k \<notin> set gone)
                    (filter (\<lambda>k. ak_user_id k \<notin> set gone_users) (api_keys d))"
    by (simp add: delete_tenants_tables gone_def gone_users_def)
  have k: "Some ` set (g1 @ g2)
             = Some ` ak_id ` (set (api_keys d) - set (api_keys (delete_tenants d c)))"
    unfolding keys g1_def g2_def by auto
  have t: "set gone = t_id ` (set (tenants d) - set (tenants (delete_tenants d c)))"
    unfolding delete_tenants_tables removed_rows gone_def by auto
  have f: "set_null_api_key (g1 @ g2)
             = (\<lambda>r. if ul_api_key_id r
                         \<in> Some ` ak_id `
                             (set (api_keys d) - set (api_keys (delete_tenants d c)))
                     then r\<lparr>ul_api_key_id := None\<rparr> else r)"
    by (rule ext) (simp only: set_null_api_key_if k)
  have "filter (\<lambda>r. ul_tenant_id r \<notin> set gone) (map (set_null_api_key (g1 @ g2)) (usage_logs d))
          = map (set_null_api_key (g1 @ g2))
              (filter (\<lambda>r. ul_tenant_id r \<notin> set gone) (usage_logs d))"
    by (simp add: filter_map comp_def set_null_api_key_tenant)
  then show ?thesis
    unfolding logs f t .
qed

lemma exec_usage_logs:
  assumes "exec d tz now c = Inr (r, d')" and "\<not> is_cleanup c"
    and "\<not> cascades_to_usage_logs c"
  shows "\<exists>ys. usage_logs d' = usage_logs d @ ys"
  using assms
  by (cases c)
    (auto simp: bind_err_def delete_plan_config_tables
      dest!: insert_users_Inr insert_usage_logs_Inr insert_billing_events_Inr
        insert_plan_config_Inr insert_tenants_Inr create_tenant_with_owner_Inr
        update_tenants_Inr change_tenant_plan_other_tables insert_api_keys_Inr
        update_plan_config_Inr
      split: sum.splits)

subsection \<open>Invariants of a sequence of calls\<close>

lemma run_invariant_on:
  assumes step: "\<And>d tz now c r d'. P c \<Longrightarrow> exec d tz now c = Inr (r, d') \<Longrightarrow> I d \<Longrightarrow> I d'"
  shows "list_all (\<lambda>(tz, now, c). P c) cs \<Longrightarrow> I d \<Longrightarrow> I (run d cs)"
proof (induction cs arbitrary: d)
  case Nil
  then show ?case by simp
next
  case (Cons a cs)
  obtain tz now c where a: "a = (tz, now, c)" by (cases a) auto
  from Cons.prems(1) a have c: "P c" and rest: "list_all (\<lambda>(tz, now, c). P c) cs"
    by simp_all
  show ?case
  proof (cases "exec d tz now c")
    case (Inl e)
    then show ?thesis using Cons.IH [OF rest Cons.prems(2)] a by simp
  next
    case (Inr p)
    obtain r d' where p: "p = (r, d')" by (cases p)
    have "I d'" using step [OF c] Inr p Cons.prems(2) by blast
    then show ?thesis using Cons.IH [OF rest] Inr a p by simp
  qed
qed

lemma run_invariant:
  assumes step: "\<And>d tz now c r d'. exec d tz now c = Inr (r, d') \<Longrightarrow> I d \<Longrightarrow> I d'"
  shows "I d \<Longrightarrow> I (run d cs)"
proof (induction cs arbitrary: d)
  case Nil
  then show ?case by simp
next
  case (Cons a cs)
  obtain tz now c where a: "a = (tz, now, c)" by (cases a) auto
  show ?case
  proof (cases "exec d tz now c")
    case (Inl e)
    then show ?thesis using Cons a by simp
  next
    case (Inr p)
    obtain r d' where p: "p = (r, d')" by (cases p)
    have "I d'" using step Inr p Cons.prems by blast
    then show ?thesis using Cons.IH Inr a p by simp
  qed
qed

lemma run_append: "run d (cs @ cs') = run (run d cs) cs'"
proof (induction cs arbitrary: d)
  case Nil
  then show ?case by simp
next
  case (Cons a cs)
  obtain tz now c where a: "a = (tz, now, c)" by (cases a) auto
  show ?case using Cons.IH by (simp add: a split: sum.splits)
qed

lemma exec_tenant_checks:
  assumes "exec d tz now c = Inr (r, d')" and "tenant_checks d"
  shows "tenant_checks d'"
proof (cases c)
  case (Create_tenant_with_owner i j name slug email hash)
  with assms show ?thesis
    by (auto simp: bind_err_def tenant_checks_def valid_plan_tier_def
        valid_subscription_status_def
        dest!: create_tenant_with_owner_Inr split: sum.splits)
next
  case (Change_tenant_plan t plan sub)
  with assms obtain ts where
    ts: "update_where (\<lambda>x. Some (t_id x) = t) (change_tenant_plan_row now plan sub) (tenants d)
           = Inr ts" and d': "d' = d\<lparr>tenants := ts\<rparr>"
    by (auto simp: bind_err_def dest!: change_tenant_plan_Inr split: sum.splits)
  have old: "\<forall>x\<in>set (tenants d). valid_plan_tier x \<and> valid_subscription_status x"
    using assms(2) by (simp add: tenant_checks_def)
  have "\<forall>y\<in>set ts. valid_plan_tier y \<and> valid_subscription_status y"
    using update_where_all [OF ts old] change_tenant_plan_row_frame by blast
  then show ?thesis by (simp add: tenant_checks_def d')
next
  case (Insert_tenants t)
  with assms show ?thesis
    by (auto simp: bind_err_def tenant_checks_def dest!: insert_tenants_Inr split: sum.splits)
next
  case (Update_tenants cond assign)
  with assms obtain ts where
    ts: "update_where cond (update_tenants_row now assign) (tenants d) = Inr ts"
    and d': "d' = d\<lparr>tenants := ts\<rparr>"
    by (auto simp: bind_err_def dest!: update_tenants_Inr split: sum.splits)
  have old: "\<forall>x\<in>set (tenants d). valid_plan_tier x \<and> valid_subscription_status x"
    using assms(2) by (simp add: tenant_checks_def)
  have "\<forall>y\<in>set ts. valid_plan_tier y \<and> valid_subscription_status y"
    using update_where_all [OF ts old] update_tenants_row_checks by blast
  then show ?thesis by (simp add: tenant_checks_def d')
next
  case (Cleanup_old_usage_logs n)
  with assms show ?thesis
    by (auto simp: bind_err_def tenant_checks_def dest!: cleanup_old_usage_logs_Inr
        split: sum.splits)
next
  case (Delete_tenants cond)
  with assms show ?thesis
    by (auto simp: tenant_checks_def delete_tenants_tables)
next
  case (Delete_users cond)
  with assms show ?thesis
    by (auto simp: tenant_checks_def delete_users_tables)
next
  case (Delete_api_keys cond)
  with assms show ?thesis
    by (auto simp: tenant_checks_def delete_api_keys_tables)
next
  case (Delete_plan_config cond)
  with assms show ?thesis
    by (auto simp: tenant_checks_def delete_plan_config_tables)
qed (use assms in \<open>auto simp: bind_err_def tenant_checks_def
      dest!: insert_users_Inr insert_usage_logs_Inr insert_billing_events_Inr
        insert_plan_config_Inr insert_api_keys_Inr update_plan_config_Inr
      split: sum.splits\<close>)

lemma run_tenant_checks:
  assumes "tenant_checks d"
  shows "tenant_checks (run d cs)"
  using assms exec_tenant_checks by (rule run_invariant [rotated])

lemma exec_unique_plan_tiers:
  assumes "exec d tz now c = Inr (r, d')" and "unique_plan_tiers d"
  shows "unique_plan_tiers d'"
proof (cases c)
  case (Delete_plan_config cond)
  with assms show ?thesis
    by (auto simp: unique_plan_tiers_def delete_plan_config_tables distinct_map_filter)
next
  case (Delete_tenants cond)
  with assms show ?thesis
    by (auto simp: unique_plan_tiers_def delete_tenants_tables)
next
  case (Delete_users cond)
  with assms show ?thesis
    by (auto simp: unique_plan_tiers_def delete_users_tables)
next
  case (Delete_api_keys cond)
  with assms show ?thesis
    by (auto simp: unique_plan_tiers_def delete_api_keys_tables)
qed (use assms in \<open>auto simp: bind_err_def unique_plan_tiers_def
      dest!: insert_users_Inr insert_usage_logs_Inr insert_billing_events_Inr
        insert_plan_config_Inr insert_tenants_Inr create_tenant_with_owner_Inr
        update_tenants_Inr change_tenant_plan_other_tables cleanup_old_usage_logs_Inr
        insert_api_keys_Inr update_plan_config_Inr
      split: sum.splits\<close>)

lemma run_unique_plan_tiers:
  assumes "unique_plan_tiers d"
  shows "unique_plan_tiers (run d cs)"
  using assms exec_unique_plan_tiers by (rule run_invariant [rotated])

lemma filter_one_mem: "length (filter P xs) = 1 \<Longrightarrow> \<exists>x\<in>set xs. P x"
  by (metis filter_False length_0_conv zero_neq_one)

lemma length_filter_map:
  "length (filter (\<lambda>p. f p = k) xs) = length (filter (\<lambda>y. y = k) (map f xs))"
  by (induction xs) auto

lemma list_all2_length_filter:
  "list_all2 (\<lambda>x y. P x = Q y) xs ys \<Longrightarrow> length (filter P xs) = length (filter Q ys)"
  by (induction xs ys rule: list_all2_induct) auto

text \<open>
  Cutting a string to \<open>VARCHAR(50)\<close> neither makes it one of the shorter strings
  nor changes it if it is one.
\<close>

lemma varchar_50_eq:
  "varchar 50 s = Inr s' \<Longrightarrow> length tier < 50 \<Longrightarrow> (s' = tier) = (s = tier)"
  by (auto simp: varchar_def split: if_splits)

lemma update_plan_config_row_tier:
  assumes "update_plan_config_row now assign p = Inr p'"
    and "pc_plan_tier (assign p) = pc_plan_tier p" and "length tier < 50"
  shows "(pc_plan_tier p' = tier) = (pc_plan_tier p = tier)"
proof -
  from assms(1) obtain plan where "varchar 50 (pc_plan_tier (assign p)) = Inr plan"
    and "pc_plan_tier p' = plan"
    by (auto simp: update_plan_config_row_def bind_err_def
        update_updated_at_column_plan_config_def split: sum.splits)
  then show ?thesis using varchar_50_eq [of "pc_plan_tier (assign p)" plan tier] assms(2,3)
    by simp
qed

lemma exec_plan_tier_count:
  assumes e: "exec d tz now c = Inr (r, d')" and k: "keeps_plan_tiers c"
    and l: "length tier < 50"
    and one: "length (filter (\<lambda>p. pc_plan_tier p = tier) (plan_config d)) = 1"
  shows "length (filter (\<lambda>p. pc_plan_tier p = tier) (plan_config d')) = 1"
proof (cases c)
  case (Insert_plan_config p)
  with e obtain p' where p': "plan_config d' = plan_config d @ [p']"
    and new: "pc_plan_tier p' \<notin> set (map pc_plan_tier (plan_config d))"
    by (auto simp: bind_err_def dest!: insert_plan_config_Inr split: sum.splits)
  have "tier \<in> set (map pc_plan_tier (plan_config d))"
    using filter_one_mem [OF one] by auto
  then have "pc_plan_tier p' \<noteq> tier" using new by auto
  then show ?thesis using one by (simp add: p')
next
  case (Update_plan_config cond assign)
  with e obtain ps where
    ps: "update_where cond (update_plan_config_row now assign) (plan_config d) = Inr ps"
    and d': "d' = d\<lparr>plan_config := ps\<rparr>"
    by (auto simp: bind_err_def dest!: update_plan_config_Inr split: sum.splits)
  from k Update_plan_config have keep: "\<forall>p. pc_plan_tier (assign p) = pc_plan_tier p"
    by simp
  have "list_all2 (\<lambda>p p'. (pc_plan_tier p = tier) = (pc_plan_tier p' = tier)) (plan_config d) ps"
    using update_where_list_all2 [OF ps]
  proof (rule list_all2_mono)
    fix p p'
    assume "(cond p \<longrightarrow> update_plan_config_row now assign p = Inr p')
              \<and> (\<not> cond p \<longrightarrow> p' = p)"
    then show "(pc_plan_tier p = tier) = (pc_plan_tier p' = tier)"
      using update_plan_config_row_tier [of now assign p p' tier] keep l
      by (cases "cond p") auto
  qed
  then have "length (filter (\<lambda>p. pc_plan_tier p = tier) (plan_config d))
               = length (filter (\<lambda>p. pc_plan_tier p = tier) ps)"
    by (rule list_all2_length_filter)
  then show ?thesis using one by (simp add: d')
next
  case (Delete_plan_config cond)
  with k show ?thesis by simp
next
  case (Delete_tenants cond)
  with e one show ?thesis by (auto simp: delete_tenants_tables)
next
  case (Delete_users cond)
  with e one show ?thesis by (auto simp: delete_users_tables)
next
  case (Delete_api_keys cond)
  with e one show ?thesis by (auto simp: delete_api_keys_tables)
qed (use e one in \<open>auto simp: bind_err_def
      dest!: insert_users_Inr insert_usage_logs_Inr insert_billing_events_Inr
        insert_tenants_Inr create_tenant_with_owner_Inr
        update_tenants_Inr change_tenant_plan_other_tables cleanup_old_usage_logs_Inr
        insert_api_keys_Inr
      split: sum.splits\<close>)

lemma exec_one_plan_per_tier:
  assumes "keeps_plan_tiers c" and "exec d tz now c = Inr (r, d')" and "one_plan_per_tier d"
  shows "one_plan_per_tier d'"
  unfolding one_plan_per_tier_def
proof
  fix tier assume t: "tier \<in> set [''free'', ''starter'', ''professional'', ''enterprise'']"
  then have l: "length tier < 50" by auto
  have "length (filter (\<lambda>p. pc_plan_tier p = tier) (plan_config d)) = 1"
    using assms(3) t unfolding one_plan_per_tier_def by blast
  then show "length (filter (\<lambda>p. pc_plan_tier p = tier) (plan_config d')) = 1"
    by (rule exec_plan_tier_count [OF assms(2) assms(1) l])
qed

lemma run_one_plan_per_tier:
  assumes "list_all (\<lambda>(tz, now, c). keeps_plan_tiers c) cs" and "one_plan_per_tier d"
  shows "one_plan_per_tier (run d cs)"
proof -
  have "\<And>d tz now c r d'. keeps_plan_tiers c \<Longrightarrow> exec d tz now c = Inr (r, d') \<Longrightarrow>
          one_plan_per_tier d \<Longrightarrow> one_plan_per_tier d'"
    by (rule exec_one_plan_per_tier)
  from run_invariant_on
         [where P = keeps_plan_tiers and I = one_plan_per_tier, OF this assms(1) assms(2)]
  show ?thesis .
qed

lemma run_append_only:
  assumes "list_all (\<lambda>(tz, now, c). \<not> is_cleanup c \<and> \<not> cascades_to_usage_logs c) cs"
  shows "\<exists>ys. usage_logs (run d cs) = usage_logs d @ ys"
proof -
  have step: "\<And>d1 tz now c r d'. \<not> is_cleanup c \<and> \<not> cascades_to_usage_logs c \<Longrightarrow>
      exec d1 tz now c = Inr (r, d') \<Longrightarrow> \<exists>ys. usage_logs d1 = usage_logs d @ ys \<Longrightarrow>
      \<exists>ys. usage_logs d' = usage_logs d @ ys"
  proof -
    fix d1 tz now c r d'
    assume c: "\<not> is_cleanup c \<and> \<not> cascades_to_usage_logs c"
      and e: "exec d1 tz now c = Inr (r, d')"
      and "\<exists>ys. usage_logs d1 = usage_logs d @ ys"
    then obtain ys where ys: "usage_logs d1 = usage_logs d @ ys" by blast
    from exec_usage_logs [OF e] c obtain zs where "usage_logs d' = usage_logs d1 @ zs"
      by blast
    then show "\<exists>ys. usage_logs d' = usage_logs d @ ys" using ys by simp
  qed
  have start: "\<exists>ys. usage_logs d = usage_logs d @ ys" by simp
  from run_invariant_on
         [where P = "\<lambda>c. \<not> is_cleanup c \<and> \<not> cascades_to_usage_logs c"
            and I = "\<lambda>d'. \<exists>ys. usage_logs d' = usage_logs d @ ys", OF step assms start]
  show ?thesis .
qed

lemma migration_001_Inr:
  assumes "migration_001 i1 i2 i3 i4 t0 = Inr d0"
  shows "tenants d0 = [] \<and> map pc_plan_tier (plan_config d0)
           = [''free'', ''starter'', ''professional'', ''enterprise'']"
  using assms
  by (auto simp: migration_001_def insert_plan_config_def bind_err_def empty_db_def
      default_plan_def varchar_def varchar_opt_def split: if_splits)

lemma mark_processed_event_ids:
  "map be_event_id (billing_events (mark_processed i d)) = map be_event_id (billing_events d)"
  by (simp add: mark_processed_def comp_def)

lemma config_sync_Ack_recorded:
  assumes "config_sync d now i n = (Ack, d1)" and "length (n_event_id n) \<le> 255"
  shows "n_event_id n \<in> set (map be_event_id (billing_events d1))"
proof (cases "n_event_id n \<in> set (map be_event_id (billing_events d))")
  case True
  with assms show ?thesis by (simp add: config_sync_def)
next
  case False
  with assms obtain d2 d3 where
    ins: "insert_billing_events d
            \<lparr>be_id = i, be_event_id = n_event_id n, be_event_type = n_event_type n,
             be_payload = n_payload n, be_processed = False, be_created_at = now\<rparr> = Inr d2"
    and upd: "update_tenants d2 now (\<lambda>t. t_id t = n_tenant n)
                (\<lambda>t. t\<lparr>t_plan_tier := n_plan_tier n,
                        t_subscription_status := n_subscription_status n\<rparr>) = Inr d3"
    and d1: "d1 = mark_processed (n_event_id n) d3"
    by (auto simp: config_sync_def split: sum.splits)
  from insert_billing_events_Inr [OF ins] obtain e' where
    e': "d2 = d\<lparr>billing_events := billing_events d @ [e']\<rparr>"
      "varchar 255 (n_event_id n) = Inr (be_event_id e')"
    by auto
  then have "be_event_id e' = n_event_id n"
    using varchar_fits [OF assms(2)] by simp
  moreover have "billing_events d3 = billing_events d2"
    using update_tenants_Inr [OF upd] by auto
  ultimately show ?thesis
    unfolding d1 mark_processed_event_ids by (simp add: e'(1))
qed

subsection \<open>Aggregates and the order of the rows\<close>

lemma mset_sum_list_map:
  fixes f :: "'a \<Rightarrow> int"
  shows "mset xs = mset ys \<Longrightarrow> sum_list (map f xs) = sum_list (map f ys)"
  by (metis mset_map sum_mset_sum_list)

lemma mset_eq_Nil: "mset xs = mset ys \<Longrightarrow> (xs = []) = (ys = [])"
  by (metis mset_zero_iff)

lemma fold_upd_map_of: "fold (\<lambda>(k, v) m. m(k \<mapsto> v)) kvs m = m ++ map_of (rev kvs)"
proof (induction kvs arbitrary: m)
  case Nil
  then show ?case by simp
next
  case (Cons a kvs)
  obtain k v where a: "a = (k, v)" by (cases a)
  have "fold (\<lambda>(k, v) m. m(k \<mapsto> v)) (a # kvs) m
          = fold (\<lambda>(k, v) m. m(k \<mapsto> v)) kvs (m(k \<mapsto> v))"
    unfolding a by (simp only: fold_simps o_apply case_prod_conv)
  also have "\<dots> = m(k \<mapsto> v) ++ map_of (rev kvs)" by (rule Cons.IH)
  also have "\<dots> = (m ++ [k \<mapsto> v]) ++ map_of (rev kvs)" by simp
  also have "\<dots> = m ++ ([k \<mapsto> v] ++ map_of (rev kvs))" by (simp only: map_add_assoc)
  also have "[k \<mapsto> v] ++ map_of (rev kvs) = map_of (rev (a # kvs))" by (simp add: a)
  finally show ?case .
qed

text \<open>The query never raises; its row in closed form.\<close>

lemma usage_stats_select_Inr:
  "usage_stats_select rows =
     Inr \<lparr>total_requests = int (length rows),
          total_queries = (\<Sum>ul\<leftarrow>rows. sint (ul_query_count ul)),
          cache_hit_rate =
            Some (if rows = [] then 0
                  else of_int (\<Sum>ul\<leftarrow>rows. if ul_cache_hit ul then 1 else 0)
                         / of_nat (length rows)),
          avg_latency_ms =
            (if rows = [] then 0
             else of_int (\<Sum>ul\<leftarrow>rows. sint (ul_latency_ms ul)) / of_nat (length rows)),
          by_endpoint = map_of (rev (map (\<lambda>ul. (ul_endpoint ul, ul_query_count ul)) rows))\<rparr>"
  by (simp add: usage_stats_select_def bind_err_def float8div_def sql_sum_def sql_avg_def
      coalesce_def jsonb_object_agg_def fold_upd_map_of)

lemma usage_stats_select_permuted:
  assumes "mset rows1 = mset rows2"
  shows "\<exists>s1 s2. usage_stats_select rows1 = Inr s1 \<and> usage_stats_select rows2 = Inr s2
           \<and> total_requests s1 = total_requests s2 \<and> total_queries s1 = total_queries s2
           \<and> cache_hit_rate s1 = cache_hit_rate s2 \<and> avg_latency_ms s1 = avg_latency_ms s2
           \<and> dom (by_endpoint s1) = dom (by_endpoint s2)
           \<and> (distinct (map ul_endpoint rows1) \<longrightarrow> s1 = s2)"
proof -
  let ?kv = "\<lambda>ul. (ul_endpoint ul, ul_query_count ul)"
  have len: "length rows1 = length rows2" using assms by (rule mset_eq_length)
  have nil: "(rows1 = []) = (rows2 = [])" using assms by (rule mset_eq_Nil)
  have set: "set rows1 = set rows2" using assms by (rule mset_eq_setD)
  have q: "(\<Sum>ul\<leftarrow>rows1. sint (ul_query_count ul)) = (\<Sum>ul\<leftarrow>rows2. sint (ul_query_count ul))"
    using assms by (rule mset_sum_list_map)
  have c: "(\<Sum>ul\<leftarrow>rows1. if ul_cache_hit ul then 1 else 0)
             = (\<Sum>ul\<leftarrow>rows2. if ul_cache_hit ul then (1::int) else 0)"
    using assms by (rule mset_sum_list_map)
  have l: "(\<Sum>ul\<leftarrow>rows1. sint (ul_latency_ms ul)) = (\<Sum>ul\<leftarrow>rows2. sint (ul_latency_ms ul))"
    using assms by (rule mset_sum_list_map)
  have d: "dom (map_of (rev (map ?kv rows1))) = dom (map_of (rev (map ?kv rows2)))"
    by (simp add: dom_map_of_conv_image_fst set image_image)
  have e: "map_of (rev (map ?kv rows1)) = map_of (rev (map ?kv rows2))"
    if "distinct (map ul_endpoint rows1)"
  proof -
    have "mset (map ul_endpoint rows1) = mset (map ul_endpoint rows2)"
      using assms by simp
    then have "distinct (map ul_endpoint rows2)"
      using that by (metis mset_eq_imp_distinct_iff)
    then show ?thesis
      using that by (simp add: map_of_inject_set comp_def rev_map [symmetric] set)
  qed
  show ?thesis
    unfolding usage_stats_select_Inr using len nil q c l d e by auto
qed

lemma by_endpoint_from_rows:
  assumes "usage_stats_select rows = Inr s" and "by_endpoint s k = Some v"
  shows "\<exists>r\<in>set rows. ul_endpoint r = k \<and> ul_query_count r = v"
proof -
  from assms have "map_of (rev (map (\<lambda>ul. (ul_endpoint ul, ul_query_count ul)) rows)) k = Some v"
    unfolding usage_stats_select_Inr by auto
  then have "(k, v) \<in> set (rev (map (\<lambda>ul. (ul_endpoint ul, ul_query_count ul)) rows))"
    by (rule map_of_SomeD)
  then show ?thesis by auto
qed

text \<open>
  Two rows of one tenant with the same endpoint: delivered in the table's order,
  the row logged last gives the value in \<open>by_endpoint\<close>; delivered in the
  opposite order, as by the index on \<open>created_at\<close> descending, the row logged
  first does.
\<close>

lemma ex_by_endpoint_order:
  "map ul_id (usage_stats_rows ex_db_two_tenants (Some 2) (Some ex_first_of_february)
                (Some ex_now)) = [11, 12]
   \<and> usage_stats_select
         (usage_stats_rows ex_db_two_tenants (Some 2) (Some ex_first_of_february)
            (Some ex_now))
       = Inr \<lparr>total_requests = 2, total_queries = 42, cache_hit_rate = Some 0,
              avg_latency_ms = 120, by_endpoint = [''search'' \<mapsto> 2]\<rparr>
   \<and> usage_stats_select
         (rev (usage_stats_rows ex_db_two_tenants (Some 2) (Some ex_first_of_february)
                 (Some ex_now)))
       = Inr \<lparr>total_requests = 2, total_queries = 42, cache_hit_rate = Some 0,
              avg_latency_ms = 120, by_endpoint = [''search'' \<mapsto> 40]\<rparr>"
  unfolding usage_stats_select_Inr
  by (simp add: usage_stats_rows_def between_def ex_db_two_tenants_def ex_log_def
      ex_first_of_february_def ex_now_def)

subsection \<open>The example runs\<close>

lemma ex_migration: "migration_001 1 2 3 4 0 = Inr ex_migrated"
  by (simp add: migration_001_def insert_plan_config_def bind_err_def empty_db_def
      default_plan_def varchar_def varchar_opt_def ex_migrated_def)

lemma lower_owner: "lower ''Owner@acme.io'' = ''owner@acme.io''"
  by code_simp

lemma ex_signup_create:
  "create_tenant_with_owner ex_migrated ex_now 7 8 (Some ''Acme'') (Some ''acme'')
     (Some ''Owner@acme.io'') None =
   Inr ((7, 8), ex_migrated
     \<lparr>tenants := [\<lparr>t_id = 7, t_name = ''Acme'', t_slug = ''acme'',
                    t_stripe_customer_id = None, t_stripe_subscription_id = None,
                    t_plan_tier = ''free'', t_subscription_status = ''active'',
                    t_sso_enabled = Some False, t_sso_provider = None, t_sso_domain = None,
                    t_created_at = ex_now, t_updated_at = ex_now\<rparr>],
      users := [\<lparr>u_id = 8, u_tenant_id = 7, u_email = ''owner@acme.io'',
                  u_password_hash = None, u_auth_provider = ''email'',
                  u_workos_user_id = None, u_role = ''owner'', u_status = ''active'',
                  u_created_at = ex_now, u_updated_at = ex_now\<rparr>]\<rparr>)"
  by (simp add: create_tenant_with_owner_def bind_err_def varchar_opt_def varchar_def
      tenants_constraints_def users_constraints_def valid_plan_tier_def
      valid_subscription_status_def valid_auth_provider_def valid_role_def valid_status_def
      lower_owner ex_migrated_def empty_db_def)

lemma ex_signup_run:
  "tenants (run ex_migrated ex_signup) =
     [\<lparr>t_id = 7, t_name = ''Acme'', t_slug = ''acme'',
       t_stripe_customer_id = None, t_stripe_subscription_id = Some ''sub_9'',
       t_plan_tier = ''starter'', t_subscription_status = ''active'',
       t_sso_enabled = Some False, t_sso_provider = None, t_sso_domain = None,
       t_created_at = ex_now, t_updated_at = ex_now\<rparr>]
   \<and> plan_config (run ex_migrated ex_signup) = plan_config ex_migrated"
  by (simp add: ex_signup_def ex_signup_create bind_err_def change_tenant_plan_def
      change_tenant_plan_row_def varchar_opt_def varchar_def update_updated_at_column_def
      valid_plan_tier_def valid_subscription_status_def)

lemma ex_requota_run:
  "map t_plan_tier (tenants (run ex_migrated ex_requota)) = [''starter'']
   \<and> map (\<lambda>p. (pc_plan_tier p, pc_queries_per_month p)) (plan_config (run ex_migrated ex_requota))
       = [(''free'', 1000), (''starter'', 20000), (''professional'', 100000),
          (''enterprise'', 1000000)]"
proof -
  have u: "update_plan_config d ex_now
             (\<lambda>p. pc_plan_tier p = ''starter'') (\<lambda>p. p\<lparr>pc_queries_per_month := 20000\<rparr>)
           = Inr (d
               \<lparr>plan_config :=
                  [default_plan 1 0 ''free'' 1000 10 [''single_search'', ''basic_support''] 0,
                   (default_plan 2 0 ''starter'' 20000 60
                      [''single_search'', ''batch_search'', ''email_support''] 2900)
                     \<lparr>pc_updated_at := ex_now\<rparr>,
                   default_plan 3 0 ''professional'' 100000 300
                     [''single_search'', ''batch_search'', ''priority_support'', ''analytics'']
                     9900,
                   default_plan 4 0 ''enterprise'' 1000000 1000
                     [''single_search'', ''batch_search'', ''sso'', ''dedicated_support'',
                      ''analytics'', ''sla''] 49900]\<rparr>)"
    if "plan_config d = plan_config ex_migrated" for d
    by (simp add: update_plan_config_def update_plan_config_row_def bind_err_def
        that ex_migrated_def empty_db_def default_plan_def varchar_def
        varchar_opt_def update_updated_at_column_plan_config_def)
  show ?thesis
    unfolding ex_requota_def run_append
    by (simp add: u [OF ex_signup_run [THEN conjunct2]] bind_err_def ex_signup_run
        default_plan_def)
qed

lemma ex_unplanned_run:
  "run ex_migrated ex_unplanned = ex_migrated
     \<lparr>tenants := [\<lparr>t_id = 7, t_name = ''Acme'', t_slug = ''acme'',
                    t_stripe_customer_id = None, t_stripe_subscription_id = None,
                    t_plan_tier = ''free'', t_subscription_status = ''active'',
                    t_sso_enabled = Some False, t_sso_provider = None, t_sso_domain = None,
                    t_created_at = ex_now, t_updated_at = ex_now\<rparr>],
      users := [\<lparr>u_id = 8, u_tenant_id = 7, u_email = ''owner@acme.io'',
                  u_password_hash = None, u_auth_provider = ''email'',
                  u_workos_user_id = None, u_role = ''owner'', u_status = ''active'',
                  u_created_at = ex_now, u_updated_at = ex_now\<rparr>],
      plan_config :=
        [default_plan 2 0 ''starter'' 10000 60
           [''single_search'', ''batch_search'', ''email_support''] 2900,
         default_plan 3 0 ''professional'' 100000 300
           [''single_search'', ''batch_search'', ''priority_support'', ''analytics''] 9900,
         default_plan 4 0 ''enterprise'' 1000000 1000
           [''single_search'', ''batch_search'', ''sso'', ''dedicated_support'',
            ''analytics'', ''sla''] 49900]\<rparr>"
  by (simp add: ex_unplanned_def ex_signup_create)
    (simp add: bind_err_def delete_plan_config_def ex_migrated_def empty_db_def
      default_plan_def)

lemma ex_dunning_run:
  "map t_subscription_status (tenants (run ex_migrated ex_dunning)) = [''past_due'']"
  unfolding ex_dunning_def
  by (simp add: ex_signup_create)
    (simp add: bind_err_def update_tenants_def update_tenants_row_def tenants_coerce_def
      varchar_def varchar_opt_def update_updated_at_column_def valid_plan_tier_def
      valid_subscription_status_def ex_migrated_def empty_db_def)

lemma ex_first_delivery:
  "config_sync ex_db ex_now 500 (ex_notification ''evt_1'' ''starter'') = (Ack, ex_db_synced)"
  by (simp add: config_sync_def ex_notification_def ex_db_def empty_db_def ex_db_synced_def
      insert_billing_events_def bind_err_def varchar_def varchar_opt_def update_tenants_def
      update_tenants_row_def tenants_coerce_def update_updated_at_column_def
      valid_plan_tier_def valid_subscription_status_def mark_processed_def ex_tenant_def
      ex_log_def)

lemma ex_cleanup:
  "cleanup_old_usage_logs ex_db_old_log utc ex_now (Some 90)
     = Inr (1, ex_db_old_log\<lparr>usage_logs := [ex_log 10 1 997 1706900000000000]\<rparr>)"
  by (simp add: cleanup_old_usage_logs_def ex_db_old_log_def ex_now_def
      timestamptz_mi_days_def days_earlier_fixed_zone utc_def usecs_per_day_def bind_err_def
      to_int4_def ex_log_def)

lemma ex_delete_tenant:
  "map t_id (tenants (delete_tenants ex_db_keys (\<lambda>t. t_id t = 1))) = [2]
   \<and> api_keys (delete_tenants ex_db_keys (\<lambda>t. t_id t = 1)) = []
   \<and> usage_logs (delete_tenants ex_db_keys (\<lambda>t. t_id t = 1))
       = [ex_log 11 2 40 1706800000000000]"
  by (simp add: delete_tenants_def delete_users_def delete_api_keys_def Let_def
      set_null_api_key_def ex_db_keys_def ex_db_two_tenants_def ex_db_def empty_db_def
      ex_tenant_def ex_user_def ex_key_def ex_log_def)

lemma ex_delete_key:
  "usage_logs (delete_api_keys ex_db_keys (\<lambda>k. ak_id k = 30))
     = [ex_log 11 2 40 1706800000000000, ex_log 10 1 997 1706900000000000]"
  by (simp add: delete_api_keys_def Let_def set_null_api_key_def ex_db_keys_def
      ex_db_two_tenants_def ex_db_def empty_db_def ex_key_def ex_log_def)

section \<open>Quota and usage\<close>



text \<open>
  C2. Every instant lies in a calendar month of the session's time zone. For an
  instant \<open>now\<close> in the month \<open>m\<close> of the year \<open>y\<close>,
  \<open>get_monthly_query_count\<close> is the sum of \<open>query_count\<close> over exactly the
  tenant's usage-log rows created at or after the start of that month (the
  midnight that begins its first day, in that time zone), as an INTEGER. A tenant
  all of whose rows predate the start of the month has a count of zero: when the
  month rolls over, the count starts again from nothing.
\<close>

theorem get_monthly_query_count_sums_current_month:
  "(\<exists>y m. in_calendar_month tz y m now)
   \<and> (\<forall>y m. in_calendar_month tz y m now \<longrightarrow>
         get_monthly_query_count d tz now (Some tid) =
           to_int4 (\<Sum>r\<leftarrow>filter (\<lambda>r. ul_tenant_id r = tid
                                     \<and> start_of_calendar_month tz y m \<le> ul_created_at r)
                        (usage_logs d). sint (ul_query_count r))
         \<and> (\<forall>v. get_monthly_query_count d tz now (Some tid) = Inr v \<longrightarrow>
               sint v = (\<Sum>r\<leftarrow>filter (\<lambda>r. ul_tenant_id r = tid
                                         \<and> start_of_calendar_month tz y m \<le> ul_created_at r)
                             (usage_logs d). sint (ul_query_count r)))
         \<and> ((\<forall>r\<in>set (usage_logs d). ul_tenant_id r = tid
                 \<longrightarrow> ul_created_at r < start_of_calendar_month tz y m)
              \<longrightarrow> get_monthly_query_count d tz now (Some tid) = Inr 0))"
proof -
  have some: "\<exists>y m. in_calendar_month tz y m now"
    using date_trunc_month_in_month [of tz now] by blast
  have each: "get_monthly_query_count d tz now (Some tid) =
           to_int4 (\<Sum>r\<leftarrow>filter (\<lambda>r. ul_tenant_id r = tid
                                     \<and> start_of_calendar_month tz y m \<le> ul_created_at r)
                        (usage_logs d). sint (ul_query_count r))
         \<and> (\<forall>v. get_monthly_query_count d tz now (Some tid) = Inr v \<longrightarrow>
               sint v = (\<Sum>r\<leftarrow>filter (\<lambda>r. ul_tenant_id r = tid
                                         \<and> start_of_calendar_month tz y m \<le> ul_created_at r)
                             (usage_logs d). sint (ul_query_count r)))
         \<and> ((\<forall>r\<in>set (usage_logs d). ul_tenant_id r = tid
                 \<longrightarrow> ul_created_at r < start_of_calendar_month tz y m)
              \<longrightarrow> get_monthly_query_count d tz now (Some tid) = Inr 0)"
    if a: "in_calendar_month tz y m now" for y m
  proof -
    let ?rows = "filter (\<lambda>r. ul_tenant_id r = tid
                           \<and> start_of_calendar_month tz y m \<le> ul_created_at r)
                   (usage_logs d)"
    have s: "date_trunc_month tz now = start_of_calendar_month tz y m"
      using a by (rule date_trunc_month_start)
    have eq: "get_monthly_query_count d tz now (Some tid)
                = to_int4 (\<Sum>r\<leftarrow>?rows. sint (ul_query_count r))"
      by (simp add: get_monthly_query_count_sum monthly_rows_def s)
    have ret: "\<forall>v. get_monthly_query_count d tz now (Some tid) = Inr v \<longrightarrow>
                 sint v = (\<Sum>r\<leftarrow>?rows. sint (ul_query_count r))"
      using eq by (simp add: sint_to_int4)
    have roll: "(\<forall>r\<in>set (usage_logs d). ul_tenant_id r = tid
                   \<longrightarrow> ul_created_at r < start_of_calendar_month tz y m)
          \<longrightarrow> get_monthly_query_count d tz now (Some tid) = Inr 0"
    proof
      assume "\<forall>r\<in>set (usage_logs d). ul_tenant_id r = tid
                \<longrightarrow> ul_created_at r < start_of_calendar_month tz y m"
      then have "?rows = []" by (auto simp: filter_empty_conv)
      then show "get_monthly_query_count d tz now (Some tid) = Inr 0"
        using eq by (simp add: to_int4_def)
    qed
    from eq ret roll show ?thesis by blast
  qed
  from some each show ?thesis by blast
qed

theorem get_monthly_query_count_sums_current_month_witness:
  "in_calendar_month utc 2024 2 ex_now
   \<and> start_of_calendar_month utc 2024 2 = ex_first_of_february
   \<and> map (\<lambda>r. (ul_tenant_id r, sint (ul_query_count r), ul_created_at r))
       (usage_logs ex_db_february)
       = [(1, 7, ex_first_of_february - 1), (1, 20, ex_first_of_february),
          (2, 40, 1706800000000000), (1, 5, 1706900000000000)]
   \<and> get_monthly_query_count ex_db_february utc ex_now (Some 1) = Inr 25
   \<and> get_monthly_query_count ex_db_january utc ex_last_of_january (Some 1) = Inr 7
   \<and> get_monthly_query_count ex_db_january utc ex_first_of_february (Some 1) = Inr 0
   \<and> get_monthly_query_count ex_db_january ex_tz_east ex_first_of_february (Some 1) = Inr 7
   \<and> in_calendar_month utc 2024 3 ex_end_of_march
   \<and> in_calendar_month ex_tz_summer 2024 4 ex_end_of_march
   \<and> get_monthly_query_count ex_db_march utc ex_end_of_march (Some 1) = Inr 13
   \<and> get_monthly_query_count ex_db_march ex_tz_summer ex_end_of_march (Some 1) = Inr 4"
proof -
  have feb: "get_monthly_query_count ex_db_february utc ex_now (Some 1) = Inr 25"
    unfolding get_monthly_query_count_sums_current_month
                [of utc ex_now ex_db_february 1, THEN conjunct2, THEN spec, THEN spec,
                 THEN mp, OF ex_now_in_february, THEN conjunct1]
      ex_start_of_february
    by (simp add: ex_db_february_def ex_log_def ex_first_of_february_def
        ex_last_of_january_def to_int4_def)
  have jan: "get_monthly_query_count ex_db_january utc ex_last_of_january (Some 1) = Inr 7"
    unfolding get_monthly_query_count_sums_current_month
                [of utc ex_last_of_january ex_db_january 1, THEN conjunct2, THEN spec,
                 THEN spec, THEN mp, OF ex_last_of_january_in_january, THEN conjunct1]
      ex_start_of_january
    by (simp add: ex_db_january_def ex_log_def ex_last_of_january_def to_int4_def)
  have old: "\<forall>r\<in>set (usage_logs ex_db_january). ul_tenant_id r = 1
               \<longrightarrow> ul_created_at r < start_of_calendar_month utc 2024 2"
    unfolding ex_start_of_february
    by (simp add: ex_db_january_def ex_log_def ex_first_of_february_def
        ex_last_of_january_def)
  have roll: "get_monthly_query_count ex_db_january utc ex_first_of_february (Some 1) = Inr 0"
    using get_monthly_query_count_sums_current_month
            [of utc ex_first_of_february ex_db_january 1, THEN conjunct2, THEN spec,
             THEN spec, THEN mp, OF ex_first_of_february_in_february, THEN conjunct2,
             THEN conjunct2]
      old
    by (rule mp)
  have east: "get_monthly_query_count ex_db_january ex_tz_east ex_first_of_february (Some 1)
                = Inr 7"
    unfolding get_monthly_query_count_sums_current_month
                [of ex_tz_east ex_first_of_february ex_db_january 1, THEN conjunct2, THEN spec,
                 THEN spec, THEN mp, OF ex_first_of_february_east, THEN conjunct1]
      ex_start_of_february_east
    by (simp add: ex_db_january_def ex_log_def ex_last_of_january_def to_int4_def)
  have march: "get_monthly_query_count ex_db_march utc ex_end_of_march (Some 1) = Inr 13"
    unfolding get_monthly_query_count_sums_current_month
                [of utc ex_end_of_march ex_db_march 1, THEN conjunct2, THEN spec,
                 THEN spec, THEN mp, OF ex_end_of_march_in_march, THEN conjunct1]
      ex_start_of_march
    by (simp add: ex_db_march_def ex_log_def to_int4_def)
  have april: "get_monthly_query_count ex_db_march ex_tz_summer ex_end_of_march (Some 1)
                 = Inr 4"
    unfolding get_monthly_query_count_sums_current_month
                [of ex_tz_summer ex_end_of_march ex_db_march 1, THEN conjunct2, THEN spec,
                 THEN spec, THEN mp, OF ex_end_of_march_in_april, THEN conjunct1]
      ex_start_of_april_summer
    by (simp add: ex_db_march_def ex_log_def to_int4_def)
  have rows: "map (\<lambda>r. (ul_tenant_id r, sint (ul_query_count r), ul_created_at r))
       (usage_logs ex_db_february)
       = [(1, 7, ex_first_of_february - 1), (1, 20, ex_first_of_february),
          (2, 40, 1706800000000000), (1, 5, 1706900000000000)]"
    by (simp add: ex_db_february_def ex_log_def ex_first_of_february_def
        ex_last_of_january_def)
  from ex_now_in_february ex_start_of_february rows feb jan roll east
    ex_end_of_march_in_march ex_end_of_march_in_april march april
  show ?thesis by blast
qed

text \<open>
  C7. Usage aggregation is tenant-isolated. Two databases that hold the same
  \<open>usage_logs\<close> rows for tenant \<open>T\<close>, in whatever order and among whatever
  rows of other tenants, give the same \<open>get_monthly_query_count\<close> for \<open>T\<close>.
  \<open>get_tenant_usage_stats\<close> raises on every call (see C9), so its results for
  \<open>T\<close> agree as well. The row its query computes for \<open>T\<close> has the same
  \<open>total_requests\<close>, \<open>total_queries\<close>, \<open>cache_hit_rate\<close> and
  \<open>avg_latency_ms\<close> on both databases, for every order in which the two plans
  deliver the rows, and a \<open>by_endpoint\<close> object with the same keys, each of whose
  values is the query count of one of the rows of \<open>T\<close>; when no two of the
  selected rows have the same endpoint, the whole row is the same. (With several
  rows for an endpoint, the value that \<open>jsonb_object_agg\<close> keeps depends on the
  order of delivery, on one and the same database too.)
\<close>

theorem usage_aggregation_tenant_isolated:
  assumes agree: "mset (filter (\<lambda>r. ul_tenant_id r = T) (usage_logs d1))
                    = mset (filter (\<lambda>r. ul_tenant_id r = T) (usage_logs d2))"
    and scan1: "\<forall>rows. mset (scan1 rows) = mset rows"
    and scan2: "\<forall>rows. mset (scan2 rows) = mset rows"
  shows "get_monthly_query_count d1 tz now (Some T) = get_monthly_query_count d2 tz now (Some T)
       \<and> get_tenant_usage_stats d1 scan1 (Some T) lo hi
           = get_tenant_usage_stats d2 scan2 (Some T) lo hi
       \<and> (\<exists>s1 s2.
            usage_stats_select (scan1 (usage_stats_rows d1 (Some T) lo hi)) = Inr s1
            \<and> usage_stats_select (scan2 (usage_stats_rows d2 (Some T) lo hi)) = Inr s2
            \<and> total_requests s1 = total_requests s2 \<and> total_queries s1 = total_queries s2
            \<and> cache_hit_rate s1 = cache_hit_rate s2 \<and> avg_latency_ms s1 = avg_latency_ms s2
            \<and> dom (by_endpoint s1) = dom (by_endpoint s2)
            \<and> (\<forall>k v. by_endpoint s1 k = Some v \<or> by_endpoint s2 k = Some v \<longrightarrow>
                  (\<exists>r\<in>set (usage_logs d1).
                      ul_tenant_id r = T \<and> ul_endpoint r = k \<and> ul_query_count r = v))
            \<and> (distinct (map ul_endpoint (usage_stats_rows d1 (Some T) lo hi)) \<longrightarrow> s1 = s2))"
proof -
  have m: "mset (monthly_rows d1 tz now (Some T)) = mset (monthly_rows d2 tz now (Some T))"
    unfolding monthly_rows_tenant mset_filter [of _ "filter _ _"] agree ..
  have count: "get_monthly_query_count d1 tz now (Some T)
                 = get_monthly_query_count d2 tz now (Some T)"
    unfolding get_monthly_query_count_sum using mset_sum_list_map [OF m] by simp
  have stats: "get_tenant_usage_stats d1 scan1 (Some T) lo hi
                 = get_tenant_usage_stats d2 scan2 (Some T) lo hi"
    by (simp add: get_tenant_usage_stats_def return_query_def usage_stats_declared_def
        usage_stats_query_types_def)
  let ?rows1 = "usage_stats_rows d1 (Some T) lo hi"
  let ?rows2 = "usage_stats_rows d2 (Some T) lo hi"
  have u: "mset ?rows1 = mset ?rows2"
    unfolding usage_stats_rows_tenant mset_filter [of _ "filter _ _"] agree ..
  have p: "mset (scan1 ?rows1) = mset (scan2 ?rows2)"
    using u scan1 scan2 by simp
  from usage_stats_select_permuted [OF p] obtain s1 s2 where
    s: "usage_stats_select (scan1 ?rows1) = Inr s1" "usage_stats_select (scan2 ?rows2) = Inr s2"
      "total_requests s1 = total_requests s2" "total_queries s1 = total_queries s2"
      "cache_hit_rate s1 = cache_hit_rate s2" "avg_latency_ms s1 = avg_latency_ms s2"
      "dom (by_endpoint s1) = dom (by_endpoint s2)"
      "distinct (map ul_endpoint (scan1 ?rows1)) \<longrightarrow> s1 = s2"
    by blast
  have set1: "set (scan1 ?rows1) = set ?rows1"
    using scan1 by (metis mset_eq_setD)
  have set2: "set (scan2 ?rows2) = set ?rows1"
    using p set1 by (metis mset_eq_setD)
  have sub: "set ?rows1 \<subseteq> {r \<in> set (usage_logs d1). ul_tenant_id r = T}"
    by (auto simp: usage_stats_rows_def)
  have vals: "\<forall>k v. by_endpoint s1 k = Some v \<or> by_endpoint s2 k = Some v \<longrightarrow>
                (\<exists>r\<in>set (usage_logs d1).
                    ul_tenant_id r = T \<and> ul_endpoint r = k \<and> ul_query_count r = v)"
  proof (intro allI impI)
    fix k v assume "by_endpoint s1 k = Some v \<or> by_endpoint s2 k = Some v"
    then have "\<exists>r\<in>set ?rows1. ul_endpoint r = k \<and> ul_query_count r = v"
      using by_endpoint_from_rows [OF s(1), of k v] by_endpoint_from_rows [OF s(2), of k v]
      unfolding set1 set2 by blast
    then show "\<exists>r\<in>set (usage_logs d1).
                 ul_tenant_id r = T \<and> ul_endpoint r = k \<and> ul_query_count r = v"
      using sub by blast
  qed
  have "mset (map ul_endpoint (scan1 ?rows1)) = mset (map ul_endpoint ?rows1)"
    using scan1 by simp
  then have "distinct (map ul_endpoint (scan1 ?rows1)) = distinct (map ul_endpoint ?rows1)"
    by (rule mset_eq_imp_distinct_iff)
  then have dist: "distinct (map ul_endpoint ?rows1) \<longrightarrow> s1 = s2"
    using s(8) by simp
  from count stats s(1-7) vals dist show ?thesis by blast
qed

theorem usage_aggregation_tenant_isolated_witness:
  "map ul_id (filter (\<lambda>r. ul_tenant_id r = 2) (usage_logs ex_db_two_tenants)) = [11, 12]
   \<and> map ul_id (filter (\<lambda>r. ul_tenant_id r = 2) (usage_logs ex_db_reordered)) = [12, 11]
   \<and> map ul_id (usage_logs ex_db_reordered) = [12, 13, 14, 11]
   \<and> get_monthly_query_count ex_db_two_tenants utc ex_now (Some 2) = Inr 42
   \<and> get_monthly_query_count ex_db_reordered utc ex_now (Some 2) = Inr 42
   \<and> (\<exists>s. usage_stats_select
             (rev (usage_stats_rows ex_db_reordered (Some 2) (Some ex_first_of_february)
                     (Some ex_now))) = Inr s
          \<and> total_requests s = 2 \<and> total_queries s = 42 \<and> cache_hit_rate s = Some 0
          \<and> avg_latency_ms s = 120 \<and> dom (by_endpoint s) = {''search''})"
proof -
  let ?T = "2 :: uuid"
  have agree: "mset (filter (\<lambda>r. ul_tenant_id r = ?T) (usage_logs ex_db_two_tenants))
                 = mset (filter (\<lambda>r. ul_tenant_id r = ?T) (usage_logs ex_db_reordered))"
    by (simp add: ex_db_two_tenants_def ex_db_reordered_def ex_log_def)
  have id: "\<forall>rows :: usage_logs_row list. mset ((\<lambda>rows. rows) rows) = mset rows" by simp
  have rv: "\<forall>rows :: usage_logs_row list. mset (rev rows) = mset rows" by simp
  have c1: "get_monthly_query_count ex_db_two_tenants utc ex_now (Some ?T) = Inr 42"
    by (simp add: get_monthly_query_count_sum monthly_rows_def date_trunc_month_ex_now
        ex_db_two_tenants_def ex_log_def ex_first_of_february_def to_int4_def)
  have q1: "usage_stats_select
              (usage_stats_rows ex_db_two_tenants (Some ?T) (Some ex_first_of_february)
                 (Some ex_now))
            = Inr \<lparr>total_requests = 2, total_queries = 42, cache_hit_rate = Some 0,
                   avg_latency_ms = 120, by_endpoint = [''search'' \<mapsto> 2]\<rparr>"
    using ex_by_endpoint_order by simp
  from usage_aggregation_tenant_isolated
         [OF agree id rv, of utc ex_now "Some ex_first_of_february" "Some ex_now"]
  obtain s1 s2 where
    c: "get_monthly_query_count ex_db_two_tenants utc ex_now (Some ?T)
          = get_monthly_query_count ex_db_reordered utc ex_now (Some ?T)"
    and s1: "usage_stats_select
               (usage_stats_rows ex_db_two_tenants (Some ?T) (Some ex_first_of_february)
                  (Some ex_now)) = Inr s1"
    and s2: "usage_stats_select
               (rev (usage_stats_rows ex_db_reordered (Some ?T) (Some ex_first_of_february)
                  (Some ex_now))) = Inr s2"
    and eq: "total_requests s1 = total_requests s2" "total_queries s1 = total_queries s2"
      "cache_hit_rate s1 = cache_hit_rate s2" "avg_latency_ms s1 = avg_latency_ms s2"
      "dom (by_endpoint s1) = dom (by_endpoint s2)"
    by blast
  from s1 q1 have "s1 = \<lparr>total_requests = 2, total_queries = 42, cache_hit_rate = Some 0,
                          avg_latency_ms = 120, by_endpoint = [''search'' \<mapsto> 2]\<rparr>"
    by simp
  with eq have "total_requests s2 = 2 \<and> total_queries s2 = 42 \<and> cache_hit_rate s2 = Some 0
                  \<and> avg_latency_ms s2 = 120 \<and> dom (by_endpoint s2) = {''search''}"
    by auto
  with s2 have q2: "\<exists>s. usage_stats_select
             (rev (usage_stats_rows ex_db_reordered (Some ?T) (Some ex_first_of_february)
                     (Some ex_now))) = Inr s
          \<and> total_requests s = 2 \<and> total_queries s = 42 \<and> cache_hit_rate s = Some 0
          \<and> avg_latency_ms s = 120 \<and> dom (by_endpoint s) = {''search''}"
    by blast
  have ids: "map ul_id (filter (\<lambda>r. ul_tenant_id r = ?T) (usage_logs ex_db_two_tenants))
               = [11, 12]
     \<and> map ul_id (filter (\<lambda>r. ul_tenant_id r = ?T) (usage_logs ex_db_reordered)) = [12, 11]
     \<and> map ul_id (usage_logs ex_db_reordered) = [12, 13, 14, 11]"
    by (simp add: ex_db_two_tenants_def ex_db_reordered_def ex_db_def ex_log_def)
  from ids c1 c q2 show ?thesis by simp
qed

text \<open>
  C8. For a tenant id that matches no \<open>tenants\<close> row, \<open>check_tenant_quota\<close>
  returns false, for every requested query count (NULL included): it neither admits
  nor raises.
\<close>

theorem check_tenant_quota_unknown_tenant_denied:
  "\<forall>t\<in>set (tenants d). Some (t_id t) \<noteq> p_tenant_id \<Longrightarrow>
     check_tenant_quota d tz now p_tenant_id p_query_count = Inr (Some False)"
  by (simp add: check_tenant_quota_def select_plan_tier_None)

theorem check_tenant_quota_unknown_tenant_denied_witness:
  "map t_id (tenants ex_db) = [1]
   \<and> check_tenant_quota ex_db utc ex_now (Some 2) (Some 1) = Inr (Some False)
   \<and> check_tenant_quota ex_db utc ex_now None None = Inr (Some False)"
proof -
  have h: "\<forall>t\<in>set (tenants ex_db). Some (t_id t) \<noteq> Some 2"
    by (simp add: ex_db_def ex_tenant_def)
  have h': "\<forall>t\<in>set (tenants ex_db). Some (t_id t) \<noteq> None"
    by simp
  show ?thesis
    using check_tenant_quota_unknown_tenant_denied [OF h, of utc ex_now "Some 1"]
      check_tenant_quota_unknown_tenant_denied [OF h', of utc ex_now None]
    by (simp add: ex_db_def ex_tenant_def)
qed

text \<open>
  C9. On a range that holds none of the tenant's rows, the query of
  \<open>get_tenant_usage_stats\<close> evaluates, without dividing, to the row of zeros the
  claim describes. The function does not return it: the query's fourth column is
  a NUMERIC where the function declares a FLOAT, so \<open>RETURN QUERY\<close> raises on
  every call.
\<close>

theorem get_tenant_usage_stats_raises:
  "get_tenant_usage_stats d scan p_tenant_id p_start_date p_end_date = Inl datatype_mismatch
   \<and> usage_stats_select [] =
       Inr \<lparr>total_requests = 0, total_queries = 0, cache_hit_rate = Some 0,
            avg_latency_ms = 0, by_endpoint = Map.empty\<rparr>"
  by (simp add: get_tenant_usage_stats_def return_query_def usage_stats_declared_def
      usage_stats_query_types_def usage_stats_select_def bind_err_def coalesce_def
      sql_sum_def sql_avg_def jsonb_object_agg_def)

section \<open>Plan tiers and subscription status\<close>

text \<open>
  C3, as stated, fails. No foreign key ties a tenant's \<open>plan_tier\<close> to
  \<open>plan_config\<close>, so the row of a tier in use can be deleted: the tenant's
  tier then resolves to no row. And that absence is not fatal:
  \<open>check_tenant_quota\<close> raises nothing and returns NULL.
\<close>

theorem plan_row_deleted_quota_null:
  "migration_001 1 2 3 4 0 = Inr ex_migrated
   \<and> map (\<lambda>t. (t_id t, t_plan_tier t)) (tenants (run ex_migrated ex_unplanned)) = [(7, ''free'')]
   \<and> map pc_plan_tier (plan_config (run ex_migrated ex_unplanned))
       = [''starter'', ''professional'', ''enterprise'']
   \<and> length (filter (\<lambda>p. pc_plan_tier p = ''free'') (plan_config (run ex_migrated ex_unplanned)))
       = 0
   \<and> check_tenant_quota (run ex_migrated ex_unplanned) utc ex_now (Some 7) (Some 1) = Inr None"
proof -
  let ?d = "run ex_migrated ex_unplanned"
  have f: "filter (\<lambda>p. pc_plan_tier p = ''free'') (plan_config ?d) = []"
    unfolding ex_unplanned_run by (simp add: default_plan_def)
  have t: "select_plan_tier ?d (Some 7) = Some ''free''"
    unfolding select_plan_tier_def ex_unplanned_run by (simp add: select_into_def)
  have q: "select_queries_per_month ?d ''free'' = None"
    unfolding select_queries_per_month_def f by (simp add: select_into_def)
  have m: "monthly_rows ?d utc ex_now (Some 7) = []"
    unfolding monthly_rows_def ex_unplanned_run by (simp add: ex_migrated_def empty_db_def)
  have c: "check_tenant_quota ?d utc ex_now (Some 7) (Some 1) = Inr None"
    by (simp add: check_tenant_quota_def t q get_monthly_query_count_sum m to_int4_def
        bind_err_def int4pl_def int4le_def)
  show ?thesis
    unfolding c f by (simp add: ex_migration ex_unplanned_run default_plan_def)
qed

text \<open>
  C3, amended. The migration seeds exactly one \<open>plan_config\<close> row for each of
  the four tiers. In every database reached from there by the operations, every
  tenant row passes the CHECK on \<open>plan_tier\<close> and no two \<open>plan_config\<close>
  rows have the same tier, so a tier resolves to at most one row. As long as no
  operation deletes a \<open>plan_config\<close> row or assigns one another tier, every
  row that passes the CHECK has exactly one \<open>plan_config\<close> row of its tier
  and the quota lookup of every tenant finds it. An INSERT of a second row with a
  tier already present is rejected. When a tenant's tier has no row, no default
  quota stands in for it and nothing is raised for it: \<open>check_tenant_quota\<close>
  returns NULL (unless the usage count overflows INTEGER).
\<close>

theorem plan_tier_resolves_while_plan_rows_kept:
  assumes "migration_001 i1 i2 i3 i4 t0 = Inr d0"
  shows "map pc_plan_tier (plan_config d0) = [''free'', ''starter'', ''professional'', ''enterprise'']
       \<and> (\<forall>t\<in>set (tenants (run d0 cs)). valid_plan_tier t)
       \<and> distinct (map pc_plan_tier (plan_config (run d0 cs)))
       \<and> (list_all (\<lambda>(tz, now, c). keeps_plan_tiers c) cs \<longrightarrow>
             (\<forall>t. valid_plan_tier t \<longrightarrow>
                 length (filter (\<lambda>p. pc_plan_tier p = t_plan_tier t) (plan_config (run d0 cs)))
                   = 1)
             \<and> (\<forall>t\<in>set (tenants (run d0 cs)).
                   select_queries_per_month (run d0 cs) (t_plan_tier t) \<noteq> None))
       \<and> (\<forall>d p tier. varchar 50 (pc_plan_tier p) = Inr tier
             \<and> tier \<in> set (map pc_plan_tier (plan_config d))
             \<longrightarrow> (\<exists>e. insert_plan_config d p = Inl e))
       \<and> (\<forall>d tz now tid n tier. select_plan_tier d tid = Some tier
             \<and> select_queries_per_month d tier = None
             \<longrightarrow> check_tenant_quota d tz now tid n = Inr None
               \<or> check_tenant_quota d tz now tid n = Inl numeric_value_out_of_range)"
proof (intro conjI)
  show seed: "map pc_plan_tier (plan_config d0)
                = [''free'', ''starter'', ''professional'', ''enterprise'']"
    using migration_001_Inr [OF assms] by simp
  have "tenant_checks d0" using migration_001_Inr [OF assms] by (simp add: tenant_checks_def)
  then have tc: "tenant_checks (run d0 cs)" by (rule run_tenant_checks)
  show "\<forall>t\<in>set (tenants (run d0 cs)). valid_plan_tier t"
    using tc by (simp add: tenant_checks_def)
  have "unique_plan_tiers d0" unfolding unique_plan_tiers_def seed by simp
  then have "unique_plan_tiers (run d0 cs)" by (rule run_unique_plan_tiers)
  then show "distinct (map pc_plan_tier (plan_config (run d0 cs)))"
    by (simp add: unique_plan_tiers_def)
  have one0: "one_plan_per_tier d0"
    unfolding one_plan_per_tier_def length_filter_map [of pc_plan_tier] seed by simp
  show "list_all (\<lambda>(tz, now, c). keeps_plan_tiers c) cs \<longrightarrow>
          (\<forall>t. valid_plan_tier t \<longrightarrow>
              length (filter (\<lambda>p. pc_plan_tier p = t_plan_tier t) (plan_config (run d0 cs)))
                = 1)
          \<and> (\<forall>t\<in>set (tenants (run d0 cs)).
                select_queries_per_month (run d0 cs) (t_plan_tier t) \<noteq> None)"
  proof
    assume "list_all (\<lambda>(tz, now, c). keeps_plan_tiers c) cs"
    then have op: "one_plan_per_tier (run d0 cs)" using one0 by (rule run_one_plan_per_tier)
    have one: "\<forall>t. valid_plan_tier t \<longrightarrow>
                 length (filter (\<lambda>p. pc_plan_tier p = t_plan_tier t) (plan_config (run d0 cs)))
                   = 1"
      using op unfolding one_plan_per_tier_def valid_plan_tier_def by blast
    have "\<forall>t\<in>set (tenants (run d0 cs)).
            select_queries_per_month (run d0 cs) (t_plan_tier t) \<noteq> None"
    proof
      fix t assume "t \<in> set (tenants (run d0 cs))"
      then have "valid_plan_tier t" using tc by (simp add: tenant_checks_def)
      then have "length (filter (\<lambda>p. pc_plan_tier p = t_plan_tier t)
                          (plan_config (run d0 cs))) = 1"
        using one by blast
      then have "filter (\<lambda>p. pc_plan_tier p = t_plan_tier t) (plan_config (run d0 cs)) \<noteq> []"
        by auto
      then show "select_queries_per_month (run d0 cs) (t_plan_tier t) \<noteq> None"
        by (simp add: select_queries_per_month_def select_into_def split: list.splits)
    qed
    with one show "(\<forall>t. valid_plan_tier t \<longrightarrow>
              length (filter (\<lambda>p. pc_plan_tier p = t_plan_tier t) (plan_config (run d0 cs)))
                = 1)
          \<and> (\<forall>t\<in>set (tenants (run d0 cs)).
                select_queries_per_month (run d0 cs) (t_plan_tier t) \<noteq> None)"
      by blast
  qed
  show "\<forall>d p tier. varchar 50 (pc_plan_tier p) = Inr tier
             \<and> tier \<in> set (map pc_plan_tier (plan_config d))
             \<longrightarrow> (\<exists>e. insert_plan_config d p = Inl e)"
    by (auto simp: insert_plan_config_def bind_err_def split: sum.splits)
  show "\<forall>d tz now tid n tier. select_plan_tier d tid = Some tier
             \<and> select_queries_per_month d tier = None
             \<longrightarrow> check_tenant_quota d tz now tid n = Inr None
               \<or> check_tenant_quota d tz now tid n = Inl numeric_value_out_of_range"
    by (auto simp: check_tenant_quota_def bind_err_def int4le_def int4pl_def
        get_monthly_query_count_def to_int4_def
        split: sum.splits option.splits if_splits)
qed

theorem plan_tier_resolves_while_plan_rows_kept_witness:
  "migration_001 1 2 3 4 0 = Inr ex_migrated
   \<and> map t_plan_tier (tenants (run ex_migrated ex_requota)) = [''starter'']
   \<and> map (\<lambda>p. (pc_plan_tier p, pc_queries_per_month p)) (plan_config (run ex_migrated ex_requota))
       = [(''free'', 1000), (''starter'', 20000), (''professional'', 100000),
          (''enterprise'', 1000000)]
   \<and> length (filter (\<lambda>p. pc_plan_tier p = ''starter'')
               (plan_config (run ex_migrated ex_requota))) = 1"
proof -
  let ?t = "\<lparr>t_id = 7, t_name = ''Acme'', t_slug = ''acme'',
       t_stripe_customer_id = None, t_stripe_subscription_id = Some ''sub_9'',
       t_plan_tier = ''starter'', t_subscription_status = ''active'',
       t_sso_enabled = Some False, t_sso_provider = None, t_sso_domain = None,
       t_created_at = ex_now, t_updated_at = ex_now\<rparr>"
  have v: "valid_plan_tier ?t" by (simp add: valid_plan_tier_def)
  have k: "list_all (\<lambda>(tz, now, c). keeps_plan_tiers c) ex_requota"
    by (simp add: ex_requota_def ex_signup_def)
  have "length (filter (\<lambda>p. pc_plan_tier p = t_plan_tier ?t)
                  (plan_config (run ex_migrated ex_requota))) = 1"
    using plan_tier_resolves_while_plan_rows_kept [OF ex_migration, of ex_requota] k v
    by blast
  then show ?thesis using ex_requota_run by (simp add: ex_migration)
qed

text \<open>
  C5, as stated, fails: the CHECK constraint admits a fifth subscription status,
  \<open>incomplete\<close>, which is none of active, trialing, past_due, canceled.
\<close>

theorem subscription_status_incomplete_admitted:
  "tenants (run empty_db [(utc, ex_now, Insert_tenants (ex_tenant 1 ''acme'' ''free'' ''incomplete''))])
     = [ex_tenant 1 ''acme'' ''free'' ''incomplete'']
   \<and> t_subscription_status (ex_tenant 1 ''acme'' ''free'' ''incomplete'')
       \<notin> set [''active'', ''trialing'', ''past_due'', ''canceled'']"
  by (simp add: insert_tenants_def tenants_coerce_def tenants_constraints_def bind_err_def
      varchar_def varchar_opt_def valid_plan_tier_def valid_subscription_status_def
      ex_tenant_def empty_db_def)

text \<open>
  C5, amended. In every database reached from one without tenants by the
  operations, every tenant row's subscription status is one of the five values
  active, trialing, past_due, canceled and incomplete.
\<close>

theorem subscription_status_one_of_five:
  assumes "tenants d0 = []"
  shows "\<forall>t\<in>set (tenants (run d0 cs)).
           t_subscription_status t
             \<in> set [''active'', ''trialing'', ''past_due'', ''canceled'', ''incomplete'']"
proof -
  have "tenant_checks d0" using assms by (simp add: tenant_checks_def)
  then have "tenant_checks (run d0 cs)" by (rule run_tenant_checks)
  then show ?thesis by (auto simp: tenant_checks_def valid_subscription_status_def)
qed

theorem subscription_status_one_of_five_witness:
  "tenants ex_migrated = []
   \<and> map t_subscription_status (tenants (run ex_migrated ex_dunning)) = [''past_due'']
   \<and> ''past_due'' \<in> set [''active'', ''trialing'', ''past_due'', ''canceled'', ''incomplete'']"
proof -
  have e: "tenants ex_migrated = []" by (simp add: ex_migrated_def empty_db_def)
  have "\<forall>t\<in>set (tenants (run ex_migrated ex_dunning)).
          t_subscription_status t
            \<in> set [''active'', ''trialing'', ''past_due'', ''canceled'', ''incomplete'']"
    using e by (rule subscription_status_one_of_five)
  then have "\<forall>s\<in>set (map t_subscription_status (tenants (run ex_migrated ex_dunning))).
          s \<in> set [''active'', ''trialing'', ''past_due'', ''canceled'', ''incomplete'']"
    by simp
  then have "''past_due'' \<in> set [''active'', ''trialing'', ''past_due'', ''canceled'', ''incomplete'']"
    unfolding ex_dunning_run by simp
  with e ex_dunning_run show ?thesis by blast
qed

section \<open>Usage logs\<close>

text \<open>
  C4, as stated, fails in three ways: \<open>cleanup_old_usage_logs\<close> deletes the
  rows older than its argument in days; deleting a tenant deletes its log rows
  (\<open>ON DELETE CASCADE\<close>); and deleting an API key rewrites the log rows that
  refer to it (\<open>ON DELETE SET NULL\<close>).
\<close>

theorem usage_logs_deleted_and_changed:
  "usage_logs ex_db_old_log = [ex_log 9 1 5 1690000000000000, ex_log 10 1 997 1706900000000000]
   \<and> usage_logs (run ex_db_old_log [(utc, ex_now, Cleanup_old_usage_logs (Some 90))])
       = [ex_log 10 1 997 1706900000000000]
   \<and> \<not> set (usage_logs ex_db_old_log)
         \<subseteq> set (usage_logs (run ex_db_old_log [(utc, ex_now, Cleanup_old_usage_logs (Some 90))]))
   \<and> usage_logs ex_db_keys
       = [(ex_log 11 2 40 1706800000000000)\<lparr>ul_api_key_id := Some 30\<rparr>,
          ex_log 10 1 997 1706900000000000]
   \<and> usage_logs (run ex_db_keys [(utc, ex_now, Delete_tenants (\<lambda>t. t_id t = 1))])
       = [ex_log 11 2 40 1706800000000000]
   \<and> usage_logs (run ex_db_keys [(utc, ex_now, Delete_api_keys (\<lambda>k. ak_id k = 30))])
       = [ex_log 11 2 40 1706800000000000, ex_log 10 1 997 1706900000000000]"
proof -
  have r: "usage_logs (run ex_db_old_log [(utc, ex_now, Cleanup_old_usage_logs (Some 90))])
             = [ex_log 10 1 997 1706900000000000]"
    by (simp add: ex_cleanup bind_err_def)
  have l: "usage_logs ex_db_old_log
             = [ex_log 9 1 5 1690000000000000, ex_log 10 1 997 1706900000000000]"
    by (simp add: ex_db_old_log_def)
  have k: "usage_logs ex_db_keys
             = [(ex_log 11 2 40 1706800000000000)\<lparr>ul_api_key_id := Some 30\<rparr>,
                ex_log 10 1 997 1706900000000000]"
    by (simp add: ex_db_keys_def)
  have n: "ex_log 9 1 5 1690000000000000 \<noteq> ex_log 10 1 997 1706900000000000"
    by (simp add: ex_log_def)
  show ?thesis unfolding r l k using n by (simp add: ex_delete_tenant ex_delete_key)
qed

text \<open>
  C4, amended. Over every sequence of operations with no call of
  \<open>cleanup_old_usage_logs\<close> and no DELETE from \<open>tenants\<close>, \<open>users\<close> or
  \<open>api_keys\<close>, the \<open>usage_logs\<close> table only grows: its rows stay as they are
  and new rows are appended. \<open>cleanup_old_usage_logs\<close> deletes exactly the rows
  created more than \<open>p_days_to_keep\<close> days before the current time (days of the
  calendar of the session's time zone, which are days of 24 hours when the zone's
  offset is constant) and changes nothing else. A DELETE from \<open>tenants\<close>, \<open>users\<close> or \<open>api_keys\<close> deletes
  exactly the log rows of the tenants it deletes (\<open>ON DELETE CASCADE\<close>) and
  leaves every other log row as it was, except that a row whose API key is
  deleted, by the statement or its cascade, has its \<open>api_key_id\<close> set to NULL
  (\<open>ON DELETE SET NULL\<close>).
\<close>

theorem usage_logs_grow_except_deletions:
  "(list_all (\<lambda>(tz, now, c). \<not> is_cleanup c \<and> \<not> cascades_to_usage_logs c) cs \<longrightarrow>
      (\<exists>ys. usage_logs (run d cs) = usage_logs d @ ys))
   \<and> (\<forall>v d'. cleanup_old_usage_logs d tz now n = Inr (v, d') \<longrightarrow>
         d' = d\<lparr>usage_logs :=
                filter (\<lambda>r. case n of None \<Rightarrow> True
                             | Some k \<Rightarrow> \<not> ul_created_at r < days_earlier tz now (sint k))
                  (usage_logs d)\<rparr>)
   \<and> (\<forall>c t k. days_earlier (fixed_zone c) t k = t - k * usecs_per_day)
   \<and> (\<forall>c res d'. cascades_to_usage_logs c \<and> exec d tz now c = Inr (res, d') \<longrightarrow>
         usage_logs d' =
           map (\<lambda>r. if ul_api_key_id r \<in> Some ` ak_id ` (set (api_keys d) - set (api_keys d'))
                     then r\<lparr>ul_api_key_id := None\<rparr> else r)
             (filter (\<lambda>r. ul_tenant_id r \<notin> t_id ` (set (tenants d) - set (tenants d')))
                (usage_logs d)))"
proof (intro conjI allI impI)
  assume "list_all (\<lambda>(tz, now, c). \<not> is_cleanup c \<and> \<not> cascades_to_usage_logs c) cs"
  then show "\<exists>ys. usage_logs (run d cs) = usage_logs d @ ys" by (rule run_append_only)
next
  fix v d' assume "cleanup_old_usage_logs d tz now n = Inr (v, d')"
  then show "d' = d\<lparr>usage_logs :=
                filter (\<lambda>r. case n of None \<Rightarrow> True
                             | Some k \<Rightarrow> \<not> ul_created_at r < days_earlier tz now (sint k))
                  (usage_logs d)\<rparr>"
    by (rule cleanup_old_usage_logs_Inr)
next
  fix c t k show "days_earlier (fixed_zone c) t k = t - k * usecs_per_day"
    by (rule days_earlier_fixed_zone)
next
  fix c res d' assume a: "cascades_to_usage_logs c \<and> exec d tz now c = Inr (res, d')"
  show "usage_logs d' =
           map (\<lambda>r. if ul_api_key_id r \<in> Some ` ak_id ` (set (api_keys d) - set (api_keys d'))
                     then r\<lparr>ul_api_key_id := None\<rparr> else r)
             (filter (\<lambda>r. ul_tenant_id r \<notin> t_id ` (set (tenants d) - set (tenants d')))
                (usage_logs d))"
  proof (cases c)
    case (Delete_tenants cond)
    with a have "d' = delete_tenants d cond" by simp
    then show ?thesis using delete_tenants_usage_logs [of d cond] by simp
  next
    case (Delete_users cond)
    with a have "d' = delete_users d cond" by simp
    then show ?thesis
      using delete_users_usage_logs [of d cond] by (simp add: delete_users_tables)
  next
    case (Delete_api_keys cond)
    with a have "d' = delete_api_keys d cond" by simp
    then show ?thesis
      using delete_api_keys_usage_logs [of d cond] by (simp add: delete_api_keys_tables)
  qed (use a in simp_all)
qed

theorem usage_logs_grow_except_deletions_witness:
  "usage_logs (run ex_db
      [(utc, ex_now, Insert_usage_logs (ex_log 11 1 3 ex_now)),
       (utc, ex_now, Change_tenant_plan (Some 1) (Some ''starter'') None)])
     = usage_logs ex_db @ [ex_log 11 1 3 ex_now]
   \<and> cleanup_old_usage_logs ex_db_old_log utc ex_now (Some 90)
       = Inr (1, ex_db_old_log\<lparr>usage_logs := [ex_log 10 1 997 1706900000000000]\<rparr>)
   \<and> usage_logs ex_db_keys
       = [(ex_log 11 2 40 1706800000000000)\<lparr>ul_api_key_id := Some 30\<rparr>,
          ex_log 10 1 997 1706900000000000]
   \<and> usage_logs (delete_tenants ex_db_keys (\<lambda>t. t_id t = 1))
       = [ex_log 11 2 40 1706800000000000]
   \<and> usage_logs (delete_api_keys ex_db_keys (\<lambda>k. ak_id k = 30))
       = [ex_log 11 2 40 1706800000000000, ex_log 10 1 997 1706900000000000]"
proof -
  let ?cs = "[(utc, ex_now, Insert_usage_logs (ex_log 11 1 3 ex_now)),
              (utc, ex_now, Change_tenant_plan (Some 1) (Some ''starter'') None)]"
  have i: "insert_usage_logs ex_db (ex_log 11 1 3 ex_now)
             = Inr (ex_db\<lparr>usage_logs := usage_logs ex_db @ [ex_log 11 1 3 ex_now]\<rparr>)"
    by (simp add: insert_usage_logs_def bind_err_def varchar_def ex_db_def ex_log_def
        ex_tenant_def empty_db_def)
  have "\<exists>ys. usage_logs (run ex_db ?cs) = usage_logs ex_db @ ys"
    using usage_logs_grow_except_deletions [of ?cs ex_db] by simp
  moreover have "usage_logs (run ex_db ?cs) = usage_logs ex_db @ [ex_log 11 1 3 ex_now]"
    by (simp add: i bind_err_def change_tenant_plan_def split: sum.splits)
  moreover have "usage_logs ex_db_keys
       = [(ex_log 11 2 40 1706800000000000)\<lparr>ul_api_key_id := Some 30\<rparr>,
          ex_log 10 1 997 1706900000000000]"
    by (simp add: ex_db_keys_def)
  ultimately show ?thesis using ex_cleanup ex_delete_tenant ex_delete_key by simp
qed

section \<open>Billing events\<close>

text \<open>
  C6. The \<open>billing_events\<close> table rejects a second row with an event id it
  already holds. Delivering a notification whose event id is already recorded is
  acknowledged and changes nothing; in particular, after a first delivery has been
  acknowledged, a second delivery under the same event id, whatever it carries,
  leaves the database, and with it the tenant's plan tier and subscription status,
  as the first delivery left it.
\<close>

theorem billing_event_redelivery_is_noop:
  "(\<forall>e. length (be_event_id e) \<le> 255
         \<and> be_event_id e \<in> set (map be_event_id (billing_events d))
         \<longrightarrow> (\<exists>err. insert_billing_events d e = Inl err))
   \<and> (n_event_id n \<in> set (map be_event_id (billing_events d)) \<longrightarrow>
         config_sync d now i n = (Ack, d))
   \<and> (\<forall>d1 n' now' i'. config_sync d now i n = (Ack, d1) \<and> length (n_event_id n) \<le> 255
         \<and> n_event_id n' = n_event_id n
         \<longrightarrow> config_sync d1 now' i' n' = (Ack, d1))"
proof (intro conjI allI impI)
  fix e :: billing_events_row
  assume "length (be_event_id e) \<le> 255
            \<and> be_event_id e \<in> set (map be_event_id (billing_events d))"
  then show "\<exists>err. insert_billing_events d e = Inl err"
    by (auto simp: insert_billing_events_def bind_err_def varchar_fits split: sum.splits)
next
  assume "n_event_id n \<in> set (map be_event_id (billing_events d))"
  then show "config_sync d now i n = (Ack, d)" by (simp add: config_sync_def)
next
  fix d1 and n' :: notification and now' i'
  assume a: "config_sync d now i n = (Ack, d1) \<and> length (n_event_id n) \<le> 255
               \<and> n_event_id n' = n_event_id n"
  then have "n_event_id n' \<in> set (map be_event_id (billing_events d1))"
    using config_sync_Ack_recorded [of d now i n d1] by simp
  then show "config_sync d1 now' i' n' = (Ack, d1)" by (simp add: config_sync_def)
qed

theorem billing_event_redelivery_is_noop_witness:
  "config_sync ex_db ex_now 500 (ex_notification ''evt_1'' ''starter'') = (Ack, ex_db_synced)
   \<and> config_sync ex_db_synced (ex_now + 1) 501 (ex_notification ''evt_1'' ''enterprise'')
       = (Ack, ex_db_synced)
   \<and> map t_plan_tier (tenants ex_db_synced) = [''starter'']"
proof -
  have "config_sync ex_db_synced (ex_now + 1) 501 (ex_notification ''evt_1'' ''enterprise'')
          = (Ack, ex_db_synced)"
    using billing_event_redelivery_is_noop
            [of ex_db "ex_notification ''evt_1'' ''starter''" ex_now 500] ex_first_delivery
    by (simp add: ex_notification_def)
  then show ?thesis
    by (simp add: ex_first_delivery) (simp add: ex_db_synced_def ex_tenant_def)
qed

section \<open>Plan changes\<close>

text \<open>
  C10. When \<open>change_tenant_plan\<close> returns, the other tables are unchanged, every
  tenant row with another id is unchanged, and a row with the given id differs
  from its old version at most in \<open>plan_tier\<close>, \<open>stripe_subscription_id\<close>,
  \<open>subscription_status\<close> and \<open>updated_at\<close>; with a NULL subscription id the
  stored one is kept; the status becomes \<open>active\<close> when the new plan is
  \<open>free\<close> and is kept otherwise. When no tenant has the given id, the function
  returns false and the database is unchanged.
\<close>

theorem change_tenant_plan_frame:
  "(\<forall>found d'. change_tenant_plan d now p_tenant_id p_new_plan p_sub = Inr (found, d') \<longrightarrow>
      users d' = users d \<and> api_keys d' = api_keys d \<and> usage_logs d' = usage_logs d
      \<and> billing_events d' = billing_events d \<and> plan_config d' = plan_config d
      \<and> found = (\<exists>t\<in>set (tenants d). Some (t_id t) = p_tenant_id)
      \<and> list_all2
          (\<lambda>t t'.
             (Some (t_id t) \<noteq> p_tenant_id \<longrightarrow> t' = t)
             \<and> (Some (t_id t) = p_tenant_id \<longrightarrow>
                  t' = t\<lparr>t_plan_tier := t_plan_tier t',
                         t_stripe_subscription_id := t_stripe_subscription_id t',
                         t_subscription_status := t_subscription_status t',
                         t_updated_at := t_updated_at t'\<rparr>
                  \<and> (p_sub = None \<longrightarrow>
                        t_stripe_subscription_id t' = t_stripe_subscription_id t)
                  \<and> t_subscription_status t'
                      = (if p_new_plan = Some ''free'' then ''active''
                         else t_subscription_status t)))
          (tenants d) (tenants d'))
   \<and> ((\<forall>t\<in>set (tenants d). Some (t_id t) \<noteq> p_tenant_id) \<longrightarrow>
        change_tenant_plan d now p_tenant_id p_new_plan p_sub = Inr (False, d))"
proof (intro conjI allI impI)
  fix found d'
  assume r: "change_tenant_plan d now p_tenant_id p_new_plan p_sub = Inr (found, d')"
  then obtain ts where
    ts: "update_where (\<lambda>t. Some (t_id t) = p_tenant_id)
           (change_tenant_plan_row now p_new_plan p_sub) (tenants d) = Inr ts"
    and d': "d' = d\<lparr>tenants := ts\<rparr>"
    and f: "found = (filter (\<lambda>t. Some (t_id t) = p_tenant_id) (tenants d) \<noteq> [])"
    by (auto simp: change_tenant_plan_def bind_err_def split: sum.splits)
  show "users d' = users d" "api_keys d' = api_keys d" "usage_logs d' = usage_logs d"
    "billing_events d' = billing_events d" "plan_config d' = plan_config d"
    by (simp_all add: d')
  show "found = (\<exists>t\<in>set (tenants d). Some (t_id t) = p_tenant_id)"
    by (simp add: f filter_empty_conv)
  have "list_all2
          (\<lambda>t t'. (Some (t_id t) = p_tenant_id \<longrightarrow>
                      change_tenant_plan_row now p_new_plan p_sub t = Inr t')
                 \<and> (\<not> Some (t_id t) = p_tenant_id \<longrightarrow> t' = t))
          (tenants d) ts"
    by (rule update_where_list_all2 [OF ts])
  then show "list_all2
          (\<lambda>t t'.
             (Some (t_id t) \<noteq> p_tenant_id \<longrightarrow> t' = t)
             \<and> (Some (t_id t) = p_tenant_id \<longrightarrow>
                  t' = t\<lparr>t_plan_tier := t_plan_tier t',
                         t_stripe_subscription_id := t_stripe_subscription_id t',
                         t_subscription_status := t_subscription_status t',
                         t_updated_at := t_updated_at t'\<rparr>
                  \<and> (p_sub = None \<longrightarrow>
                        t_stripe_subscription_id t' = t_stripe_subscription_id t)
                  \<and> t_subscription_status t'
                      = (if p_new_plan = Some ''free'' then ''active''
                         else t_subscription_status t)))
          (tenants d) (tenants d')"
    unfolding d'
    by (simp, elim list_all2_mono) (use change_tenant_plan_row_frame in blast)
next
  assume "\<forall>t\<in>set (tenants d). Some (t_id t) \<noteq> p_tenant_id"
  then show "change_tenant_plan d now p_tenant_id p_new_plan p_sub = Inr (False, d)"
    by (simp add: change_tenant_plan_def update_where_none bind_err_def
        filter_empty_conv[THEN iffD2])
qed

theorem change_tenant_plan_frame_witness:
  "change_tenant_plan ex_db_past_due ex_now (Some 1) (Some ''free'') None
     = Inr (True, ex_db_past_due
         \<lparr>tenants := [(ex_tenant 1 ''acme'' ''free'' ''active'')\<lparr>t_updated_at := ex_now\<rparr>]\<rparr>)
   \<and> change_tenant_plan ex_db_past_due ex_now (Some 1) (Some ''professional'') (Some ''sub_2'')
     = Inr (True, ex_db_past_due
         \<lparr>tenants := [(ex_tenant 1 ''acme'' ''professional'' ''past_due'')
                        \<lparr>t_stripe_subscription_id := Some ''sub_2'', t_updated_at := ex_now\<rparr>]\<rparr>)
   \<and> change_tenant_plan ex_db_past_due ex_now (Some 2) (Some ''free'') None
     = Inr (False, ex_db_past_due)"
proof -
  have none: "\<forall>t\<in>set (tenants ex_db_past_due). Some (t_id t) \<noteq> Some 2"
    by (simp add: ex_db_past_due_def ex_tenant_def)
  have "change_tenant_plan ex_db_past_due ex_now (Some 2) (Some ''free'') None
          = Inr (False, ex_db_past_due)"
    using change_tenant_plan_frame [of ex_db_past_due ex_now "Some 2" "Some ''free''" None] none by blast
  then show ?thesis
    by (simp add: change_tenant_plan_def change_tenant_plan_row_def bind_err_def
        varchar_opt_def varchar_def update_updated_at_column_def valid_plan_tier_def
        valid_subscription_status_def ex_db_past_due_def ex_tenant_def)
qed

end
